theory Spec2Isabelle
  imports Main "HOL-Library.Word"
begin

unbundle bit_operations_syntax

section \<open>Audio file manager: registry cache, locator codec and download queue\<close>

text \<open>
  A shallow embedding of \<^verbatim>\<open>src/audio_file_manager.cpp\<close>. The module's globals and the
  content of the SD card form one record that every function takes and returns; the
  answers of the external collaborators (WiFi, SD driver, HTTP client, JSON library,
  clock) are the fields of a second record that is only read. C strings are
  \<open>string\<close>s, a nullable \<^verbatim>\<open>const char*\<close> is a \<open>string option\<close>,
  \<^verbatim>\<open>unsigned long\<close> is a 32-bit word (the ESP32 target), and the two fixed-size
  arrays are lists that are written by index next to their counters.
\<close>

subsection \<open>Configuration constants (audio\_file\_manager.h)\<close>

type_synonym ulong = "32 word"

definition AUDIO_JSON_FILE :: string where
  "AUDIO_JSON_FILE = ''/audio_files.json''"

definition CACHE_TIMESTAMP_FILE :: string where
  "CACHE_TIMESTAMP_FILE = ''/known_cache_time.txt''"

definition CACHE_VALIDITY_HOURS :: ulong where
  "CACHE_VALIDITY_HOURS = 24 * 7"

definition MAX_KNOWN_SEQUENCES :: nat where
  "MAX_KNOWN_SEQUENCES = 50"

definition MAX_HTTP_RESPONSE_SIZE :: nat where
  "MAX_HTTP_RESPONSE_SIZE = 8192"

definition AUDIO_FILES_DIR :: string where
  "AUDIO_FILES_DIR = ''/audio''"

definition MAX_DOWNLOAD_QUEUE :: nat where
  "MAX_DOWNLOAD_QUEUE = 20"

definition MAX_FILENAME_LENGTH :: nat where
  "MAX_FILENAME_LENGTH = 64"

definition KNOWN_FILES_URL :: string where
  "KNOWN_FILES_URL = ''https://github.com/jeff-hamm/bowie-phone/sample-sequence.json''"

definition DOWNLOAD_QUEUE_CHECK_INTERVAL_MS :: ulong where
  "DOWNLOAD_QUEUE_CHECK_INTERVAL_MS = 1000"

subsection \<open>Data\<close>

text \<open>\<^verbatim>\<open>struct AudioFile\<close>: four \<^verbatim>\<open>const char*\<close>. The key is compared with
  \<^verbatim>\<open>strcmp\<close> without a null test, the other three are tested for null by their readers.\<close>

record AudioFile =
  audioKey :: string
  description :: "string option"
  type :: "string option"
  path :: "string option"

text \<open>\<^verbatim>\<open>struct AudioDownloadItem\<close>: \<^verbatim>\<open>char url[256]\<close>, \<^verbatim>\<open>char localPath[128]\<close>,
  \<^verbatim>\<open>char description[64]\<close>, \<^verbatim>\<open>bool inProgress\<close>. The field \<^verbatim>\<open>description\<close> is
  called \<open>itemDescription\<close> here, since \<open>AudioFile\<close> has a field of that name.\<close>

record AudioDownloadItem =
  url :: string
  localPath :: string
  itemDescription :: string
  inProgress :: bool

datatype sd_entry = SDFile string | SDDir

text \<open>The module's static variables, the static local \<^verbatim>\<open>lastDownloadCheck\<close> of
  \<^verbatim>\<open>processAudioDownloadQueue\<close>, the content of the SD card, and the list of the URLs
  that \<^verbatim>\<open>http.GET()\<close> was called on (most recent last).\<close>

record state =
  knownFiles :: "AudioFile list"
  knownSequenceCount :: nat
  lastCacheTime :: ulong
  sdCardInitialized :: bool
  downloadQueue :: "AudioDownloadItem list"
  downloadQueueCount :: nat
  downloadQueueIndex :: nat
  lastDownloadCheck :: ulong
  sd_card :: "string \<Rightarrow> sd_entry option"
  http_requests :: "string list"

text \<open>One poll of the download loop: what \<^verbatim>\<open>http.connected()\<close> and
  \<^verbatim>\<open>stream->available()\<close> answer, and the bytes \<^verbatim>\<open>readBytes\<close> can deliver.\<close>

record poll =
  p_connected :: bool
  p_available :: nat
  p_data :: string

record http_response =
  r_code :: int
  r_size :: int
  r_payload :: string
  r_polls :: "poll list"

text \<open>One value of the JSON root object: the members \<^verbatim>\<open>description\<close>, \<^verbatim>\<open>type\<close> and
  \<^verbatim>\<open>path\<close>, each absent or a string.\<close>

record seq_data =
  j_description :: "string option"
  j_type :: "string option"
  j_path :: "string option"

text \<open>The external collaborators. \<open>deserializeJson\<close> is \<open>None\<close> on a
  \<^verbatim>\<open>DeserializationError\<close> and otherwise the key/value pairs of the root object in
  document order; \<open>toInt\<close> is \<^verbatim>\<open>String::toInt()\<close> converted to \<^verbatim>\<open>unsigned long\<close>.
  \<open>millis\<close> is the clock reading during the call that is modelled.\<close>

record env =
  wifi_connected :: bool
  sd_begin_ok :: bool
  sd_card_present :: bool
  sd_mkdir_ok :: bool
  sd_open_read_ok :: "string \<Rightarrow> bool"
  sd_open_write_ok :: "string \<Rightarrow> bool"
  millis :: ulong
  http_GET :: "string \<Rightarrow> http_response"
  deserializeJson :: "string \<Rightarrow> (string \<times> seq_data) list option"
  serializeJson :: "AudioFile list \<Rightarrow> string"
  toInt :: "string \<Rightarrow> ulong"

subsection \<open>SD card driver\<close>

definition SD_exists :: "state \<Rightarrow> string \<Rightarrow> bool" where
  "SD_exists s p = (sd_card s p \<noteq> None)"

definition SD_open_read :: "env \<Rightarrow> state \<Rightarrow> string \<Rightarrow> string option" where
  "SD_open_read e s p =
     (case sd_card s p of
        Some (SDFile c) \<Rightarrow> if sd_open_read_ok e p then Some c else None
      | _ \<Rightarrow> None)"

text \<open>\<^verbatim>\<open>SD.open(path, FILE_WRITE)\<close> followed by writing \<open>c\<close> and \<^verbatim>\<open>close()\<close>: the file is
  created or replaced.\<close>

definition SD_write :: "state \<Rightarrow> string \<Rightarrow> string \<Rightarrow> state" where
  "SD_write s p c = s\<lparr>sd_card := (sd_card s)(p \<mapsto> SDFile c)\<rparr>"

definition SD_mkdir :: "state \<Rightarrow> string \<Rightarrow> state" where
  "SD_mkdir s p = s\<lparr>sd_card := (sd_card s)(p \<mapsto> SDDir)\<rparr>"

definition initializeSDCard :: "env \<Rightarrow> state \<Rightarrow> bool \<times> state" where
  "initializeSDCard e s =
     (if sdCardInitialized s then (True, s)
      else if \<not> sd_begin_ok e then (False, s)
      else if \<not> sd_card_present e then (False, s)
      else (True, s\<lparr>sdCardInitialized := True\<rparr>))"

subsection \<open>Locator codec: urlToFilename and getLocalAudioPath\<close>

text \<open>\<^verbatim>\<open>snprintf(buf, n, ...)\<close> keeps the first \<open>n - 1\<close> characters.\<close>

definition snprintf :: "nat \<Rightarrow> string \<Rightarrow> string" where
  "snprintf n str = take (n - 1) str"

definition isalnum :: "char \<Rightarrow> bool" where
  "isalnum c = (let n = (of_char c :: nat) in
     (48 \<le> n \<and> n \<le> 57) \<or> (65 \<le> n \<and> n \<le> 90) \<or> (97 \<le> n \<and> n \<le> 122))"

text \<open>\<^verbatim>\<open>lastSlash ? lastSlash + 1 : url\<close> with \<^verbatim>\<open>lastSlash = strrchr(url, '/')\<close>.\<close>

definition urlFilename :: "string \<Rightarrow> string" where
  "urlFilename u = rev (takeWhile (\<lambda>c. c \<noteq> CHR ''/'') (rev u))"

text \<open>The cleaning loop; \<open>out\<close> is \<^verbatim>\<open>filename[0..j)\<close>.\<close>

fun clean :: "string \<Rightarrow> string \<Rightarrow> string" where
  "clean [] out = out"
| "clean (c # cs) out =
     (if length out < MAX_FILENAME_LENGTH - 1 then
        (if isalnum c \<or> c = CHR ''.'' \<or> c = CHR ''-'' \<or> c = CHR ''_'' then clean cs (out @ [c])
         else if c = CHR '' '' then clean cs (out @ [CHR ''_''])
         else clean cs out)
      else out)"

text \<open>\<^verbatim>\<open>hash = ((hash << 5) + hash) + url[i]\<close> on a 32-bit \<^verbatim>\<open>unsigned long\<close>
  (\<^verbatim>\<open>char\<close> is unsigned on the target).\<close>

fun hash_loop :: "string \<Rightarrow> ulong \<Rightarrow> ulong" where
  "hash_loop [] h = h"
| "hash_loop (c # cs) h = hash_loop cs ((push_bit 5 h + h) + of_nat (of_char c))"

definition hex_digit :: "nat \<Rightarrow> char" where
  "hex_digit n = ''0123456789abcdef'' ! n"

text \<open>\<^verbatim>\<open>%08lx\<close>\<close>

definition hex08 :: "ulong \<Rightarrow> string" where
  "hex08 h = map (\<lambda>i. hex_digit (unat (drop_bit (4 * i) h AND 15))) [7, 6, 5, 4, 3, 2, 1, 0]"

text \<open>\<^verbatim>\<open>%d\<close> and \<^verbatim>\<open>print(unsigned long)\<close> on a value that is not negative.\<close>

fun decimal :: "nat \<Rightarrow> string" where
  "decimal n = (if n < 10 then [hex_digit n] else decimal (n div 10) @ [hex_digit (n mod 10)])"

declare decimal.simps [simp del]

text \<open>The collision loop \<^verbatim>\<open>for (counter = 1; counter < 1000; counter++)\<close>: the first
  counter whose suffixed name is not on the card, or \<open>None\<close> when all are taken.\<close>

function find_unused :: "state \<Rightarrow> ulong \<Rightarrow> nat \<Rightarrow> string option" where
  "find_unused s h counter =
     (if counter < 1000 then
        (let filename = snprintf MAX_FILENAME_LENGTH
               (''audio_'' @ hex08 h @ ''_'' @ decimal counter @ ''.mp3'');
             testPath = snprintf 128 (AUDIO_FILES_DIR @ ''/'' @ filename)
         in if \<not> SD_exists s testPath then Some filename
            else find_unused s h (counter + 1))
      else None)"
  by pat_completeness auto
termination
  by (relation "measure (\<lambda>(s, h, counter). 1000 - counter)") auto

declare find_unused.simps [simp del]

text \<open>\<^verbatim>\<open>urlToFilename\<close>. The output buffer is a local array of the callers and never null,
  so only the null test of \<open>url\<close> is a branch. The cleaned name is returned when the
  final segment is not empty, has a dot, and the cleaned name is not empty; in every other
  case the code falls through to the name made from the hash.\<close>

definition urlToFilename :: "env \<Rightarrow> state \<Rightarrow> string option \<Rightarrow> string option \<times> state" where
  "urlToFilename e s url_arg =
     (case url_arg of
        None \<Rightarrow> (None, s)
      | Some u \<Rightarrow>
          (let cleaned = clean (urlFilename u) [] in
           if length (urlFilename u) > 0 \<and> CHR ''.'' \<in> set (urlFilename u) \<and> length cleaned > 0
           then (Some cleaned, s)
           else
             (let h = hash_loop u 5381;
                  baseFilename = snprintf MAX_FILENAME_LENGTH (''audio_'' @ hex08 h @ ''.mp3'');
                  (ok, s1) = initializeSDCard e s
              in if ok \<and> SD_exists s1 (snprintf 128 (AUDIO_FILES_DIR @ ''/'' @ baseFilename))
                 then (case find_unused s1 h 1 of
                         Some filename \<Rightarrow> (Some filename, s1)
                       | None \<Rightarrow> (Some (snprintf MAX_FILENAME_LENGTH baseFilename), s1))
                 else (Some (snprintf MAX_FILENAME_LENGTH baseFilename), s1))))"

definition getLocalAudioPath :: "env \<Rightarrow> state \<Rightarrow> string option \<Rightarrow> string option \<times> state" where
  "getLocalAudioPath e s url_arg =
     (case url_arg of
        None \<Rightarrow> (None, s)
      | Some u \<Rightarrow>
          (case urlToFilename e s (Some u) of
             (None, s1) \<Rightarrow> (None, s1)
           | (Some filename, s1) \<Rightarrow>
               (Some (snprintf 128 (AUDIO_FILES_DIR @ ''/'' @ filename)), s1)))"

definition audioFileExists :: "env \<Rightarrow> state \<Rightarrow> string \<Rightarrow> bool \<times> state" where
  "audioFileExists e s u =
     (case initializeSDCard e s of
        (False, s1) \<Rightarrow> (False, s1)
      | (True, s1) \<Rightarrow>
          (case getLocalAudioPath e s1 (Some u) of
             (None, s2) \<Rightarrow> (False, s2)
           | (Some p, s2) \<Rightarrow> (SD_exists s2 p, s2)))"

subsection \<open>Download queue\<close>

text \<open>\<^verbatim>\<open>strncpy(dst, src, n - 1); dst[n - 1] = '\0'\<close> into a buffer of \<open>n\<close> bytes.\<close>

definition strncpy_buf :: "nat \<Rightarrow> string \<Rightarrow> string" where
  "strncpy_buf n str = take (n - 1) str"

text \<open>The URLs stored at the indices below \<^verbatim>\<open>downloadQueueCount\<close>.\<close>

definition queued_urls :: "state \<Rightarrow> string list" where
  "queued_urls s = map url (take (downloadQueueCount s) (downloadQueue s))"

definition addToDownloadQueue :: "env \<Rightarrow> state \<Rightarrow> string \<Rightarrow> string option \<Rightarrow> bool \<times> state" where
  "addToDownloadQueue e s u desc =
     (if downloadQueueCount s \<ge> MAX_DOWNLOAD_QUEUE then (False, s)
      else if u \<in> set (queued_urls s) then (True, s)
      else
        (let n = downloadQueueCount s;
             s1 = s\<lparr>downloadQueue :=
                    (downloadQueue s)[n := (downloadQueue s ! n)\<lparr>url := strncpy_buf 256 u\<rparr>]\<rparr>
         in case getLocalAudioPath e s1 (Some u) of
              (None, s2) \<Rightarrow> (False, s2)
            | (Some p, s2) \<Rightarrow>
                (True, s2\<lparr>downloadQueue :=
                            (downloadQueue s2)[n := (downloadQueue s2 ! n)
                               \<lparr>localPath := p,
                                itemDescription := strncpy_buf 64
                                  (case desc of None \<Rightarrow> ''Unknown'' | Some d \<Rightarrow> d),
                                inProgress := False\<rparr>],
                          downloadQueueCount := n + 1\<rparr>)))"

text \<open>The chunk loop of \<^verbatim>\<open>processDownloadQueue\<close>. The list is what the connection
  answers, poll by poll; once it is used up the connection stays open and silent. The
  result is \<open>None\<close> when the loop never ends, and otherwise the bytes written to the file
  and \<^verbatim>\<open>totalBytes\<close>.\<close>

fun download_chunks :: "poll list \<Rightarrow> int \<Rightarrow> string \<Rightarrow> int \<Rightarrow> (string \<times> int) option" where
  "download_chunks [] contentLength written totalBytes =
     (if contentLength > 0 \<or> contentLength = -1 then None else Some (written, totalBytes))"
| "download_chunks (p # ps) contentLength written totalBytes =
     (if p_connected p \<and> (contentLength > 0 \<or> contentLength = -1) then
        (if p_available p > 0 then
           (let bytesToRead = min (p_available p) 1024;
                buffer = take bytesToRead (p_data p);
                bytesRead = int (length buffer)
            in if bytesRead > 0 then
                 download_chunks ps
                   (if contentLength > 0 then contentLength - bytesRead else contentLength)
                   (written @ buffer) (totalBytes + bytesRead)
               else download_chunks ps contentLength written totalBytes)
         else download_chunks ps contentLength written totalBytes)
      else Some (written, totalBytes))"

definition set_inProgress :: "state \<Rightarrow> nat \<Rightarrow> bool \<Rightarrow> state" where
  "set_inProgress s i b =
     s\<lparr>downloadQueue := (downloadQueue s)[i := (downloadQueue s ! i)\<lparr>inProgress := b\<rparr>]\<rparr>"

text \<open>\<^verbatim>\<open>item->inProgress = false; downloadQueueIndex++;\<close>\<close>

definition finish_item :: "state \<Rightarrow> state" where
  "finish_item s =
     (set_inProgress s (downloadQueueIndex s) False)\<lparr>downloadQueueIndex := downloadQueueIndex s + 1\<rparr>"

text \<open>The part of \<^verbatim>\<open>processDownloadQueue\<close> after \<^verbatim>\<open>item->inProgress = true\<close>.\<close>

definition download_item :: "env \<Rightarrow> state \<Rightarrow> (bool \<times> state) option" where
  "download_item e s =
     (let item = downloadQueue s ! downloadQueueIndex s in
      if \<not> SD_exists s AUDIO_FILES_DIR \<and> \<not> sd_mkdir_ok e then Some (False, finish_item s)
      else
        (let s1 = (if \<not> SD_exists s AUDIO_FILES_DIR then SD_mkdir s AUDIO_FILES_DIR else s);
             s2 = s1\<lparr>http_requests := http_requests s1 @ [url item]\<rparr>;
             r = http_GET e (url item);
             httpCode = r_code r
         in if httpCode = 200 then
              (let contentLength = r_size r in
               if \<not> sd_open_write_ok e (localPath item) then Some (False, finish_item s2)
               else
                 (case download_chunks (r_polls r) contentLength [] 0 of
                    None \<Rightarrow> None
                  | Some (written, totalBytes) \<Rightarrow>
                      Some (httpCode = 200, finish_item (SD_write s2 (localPath item) written))))
            else Some (httpCode = 200, finish_item s2)))"

definition processDownloadQueue :: "env \<Rightarrow> state \<Rightarrow> (bool \<times> state) option" where
  "processDownloadQueue e s =
     (if downloadQueueIndex s \<ge> downloadQueueCount s then Some (False, s)
      else if \<not> wifi_connected e then Some (False, s)
      else
        (case initializeSDCard e s of
           (False, s1) \<Rightarrow> Some (False, s1)
         | (True, s1) \<Rightarrow>
             if inProgress (downloadQueue s1 ! downloadQueueIndex s1) then Some (False, s1)
             else download_item e (set_inProgress s1 (downloadQueueIndex s1) True)))"

definition processAudioDownloadQueue :: "env \<Rightarrow> state \<Rightarrow> (bool \<times> state) option" where
  "processAudioDownloadQueue e s =
     (if millis e - lastDownloadCheck s < DOWNLOAD_QUEUE_CHECK_INTERVAL_MS then Some (False, s)
      else processDownloadQueue e (s\<lparr>lastDownloadCheck := millis e\<rparr>))"

definition getDownloadQueueCount :: "state \<Rightarrow> int" where
  "getDownloadQueueCount s = int (downloadQueueCount s) - int (downloadQueueIndex s)"

definition getTotalDownloadQueueSize :: "state \<Rightarrow> nat" where
  "getTotalDownloadQueueSize s = downloadQueueCount s"

definition clearDownloadQueue :: "state \<Rightarrow> state" where
  "clearDownloadQueue s = s\<lparr>downloadQueueCount := 0, downloadQueueIndex := 0\<rparr>"

definition isDownloadQueueEmpty :: "state \<Rightarrow> bool" where
  "isDownloadQueueEmpty s = (downloadQueueIndex s \<ge> downloadQueueCount s)"

subsection \<open>Registry store and refresh\<close>

definition maxAge :: ulong where
  "maxAge = CACHE_VALIDITY_HOURS * 60 * 60 * 1000"

text \<open>The rollover branch of \<^verbatim>\<open>isCacheStale\<close>.\<close>

definition cacheAge :: "ulong \<Rightarrow> ulong \<Rightarrow> ulong" where
  "cacheAge currentTime savedTime =
     (if currentTime \<ge> savedTime then currentTime - savedTime
      else (0xFFFFFFFF - savedTime) + currentTime + 1)"

definition isCacheStale :: "env \<Rightarrow> state \<Rightarrow> bool \<times> state" where
  "isCacheStale e s =
     (if knownSequenceCount s = 0 then (True, s)
      else
        (case initializeSDCard e s of
           (False, s1) \<Rightarrow> (False, s1)
         | (True, s1) \<Rightarrow>
             (case SD_open_read e s1 CACHE_TIMESTAMP_FILE of
                None \<Rightarrow> (True, s1)
              | Some timestampStr \<Rightarrow>
                  (let savedTime = toInt e timestampStr;
                       currentTime = millis e
                   in (cacheAge currentTime savedTime > maxAge, s1)))))"

definition saveKnownSequencesToSDCard :: "env \<Rightarrow> state \<Rightarrow> bool \<times> state" where
  "saveKnownSequencesToSDCard e s =
     (case initializeSDCard e s of
        (False, s1) \<Rightarrow> (False, s1)
      | (True, s1) \<Rightarrow>
          (let doc = serializeJson e (take (knownSequenceCount s1) (knownFiles s1)) in
           if \<not> sd_open_write_ok e AUDIO_JSON_FILE then (False, s1)
           else
             (let s2 = SD_write s1 AUDIO_JSON_FILE doc;
                  bytesWritten = length doc
              in if bytesWritten = 0 then (False, s2)
                 else if sd_open_write_ok e CACHE_TIMESTAMP_FILE then
                   (True, (SD_write s2 CACHE_TIMESTAMP_FILE (decimal (unat (millis e))))
                            \<lparr>lastCacheTime := millis e\<rparr>)
                 else (True, s2))))"

text \<open>The loop \<^verbatim>\<open>for (JsonPair kv : root)\<close> of both loaders, on the array and its count.\<close>

fun load_sequences :: "(string \<times> seq_data) list \<Rightarrow> AudioFile list \<Rightarrow> nat \<Rightarrow> AudioFile list \<times> nat" where
  "load_sequences [] files n = (files, n)"
| "load_sequences ((sequence, seqData) # kvs) files n =
     (if n \<ge> MAX_KNOWN_SEQUENCES then (files, n)
      else load_sequences kvs
             (files[n := \<lparr>audioKey = sequence,
                          description = Some (case j_description seqData of None \<Rightarrow> ''Unknown'' | Some d \<Rightarrow> d),
                          type = Some (case j_type seqData of None \<Rightarrow> ''unknown'' | Some t \<Rightarrow> t),
                          path = Some (case j_path seqData of None \<Rightarrow> [] | Some p \<Rightarrow> p)\<rparr>])
             (n + 1))"

definition loadKnownSequencesFromSDCard :: "env \<Rightarrow> state \<Rightarrow> bool \<times> state" where
  "loadKnownSequencesFromSDCard e s =
     (case initializeSDCard e s of
        (False, s1) \<Rightarrow> (False, s1)
      | (True, s1) \<Rightarrow>
          if \<not> SD_exists s1 AUDIO_JSON_FILE then (False, s1)
          else
            (case SD_open_read e s1 AUDIO_JSON_FILE of
               None \<Rightarrow> (False, s1)
             | Some jsonString \<Rightarrow>
                 if length jsonString = 0 then (False, s1)
                 else
                   (let s2 = (case SD_open_read e s1 CACHE_TIMESTAMP_FILE of
                                Some timestampStr \<Rightarrow> s1\<lparr>lastCacheTime := toInt e timestampStr\<rparr>
                              | None \<Rightarrow> s1\<lparr>lastCacheTime := 0\<rparr>)
                    in case deserializeJson e jsonString of
                         None \<Rightarrow> (False, s2)
                       | Some root \<Rightarrow>
                           (case load_sequences root (knownFiles s2) 0 of
                              (files, n) \<Rightarrow>
                                (True, s2\<lparr>knownFiles := files, knownSequenceCount := n\<rparr>)))))"

definition downloadAudio :: "env \<Rightarrow> state \<Rightarrow> bool \<times> state" where
  "downloadAudio e s =
     (if \<not> wifi_connected e then (False, s)
      else
        (case isCacheStale e s of
           (False, s1) \<Rightarrow> (True, s1)
         | (True, s1) \<Rightarrow>
             (let s2 = s1\<lparr>http_requests := http_requests s1 @ [KNOWN_FILES_URL]\<rparr>;
                  r = http_GET e KNOWN_FILES_URL
              in if r_code r \<noteq> 200 then (False, s2)
                 else
                   (let payload = r_payload r in
                    if length payload > MAX_HTTP_RESPONSE_SIZE then (False, s2)
                    else
                      (case deserializeJson e payload of
                         None \<Rightarrow> (False, s2)
                       | Some root \<Rightarrow>
                           (case load_sequences root (knownFiles s2) 0 of
                              (files, n) \<Rightarrow>
                                (True, snd (saveKnownSequencesToSDCard e
                                   (s2\<lparr>knownFiles := files, knownSequenceCount := n\<rparr>)))))))))"

subsection \<open>Cache resolver\<close>

text \<open>\<^verbatim>\<open>strncmp(path, "http://", 7) == 0 || strncmp(path, "https://", 8) == 0\<close>\<close>

definition is_web_url :: "string \<Rightarrow> bool" where
  "is_web_url p = (take 7 p = ''http://'' \<or> take 8 p = ''https://'')"

definition processAudioKey :: "env \<Rightarrow> state \<Rightarrow> string option \<Rightarrow> string option \<times> state" where
  "processAudioKey e s sequence_arg =
     (case sequence_arg of
        None \<Rightarrow> (None, s)
      | Some sequence \<Rightarrow>
          (case find (\<lambda>f. audioKey f = sequence) (take (knownSequenceCount s) (knownFiles s)) of
             None \<Rightarrow> (None, s)
           | Some found \<Rightarrow>
               (case type found of
                  None \<Rightarrow> (None, s)
                | Some t \<Rightarrow>
                    if t = ''audio'' then
                      (case path found of
                         None \<Rightarrow> (None, s)
                       | Some p \<Rightarrow>
                           if length p = 0 then (None, s)
                           else if is_web_url p then
                             (case audioFileExists e s p of
                                (True, s1) \<Rightarrow> getLocalAudioPath e s1 (Some p)
                              | (False, s1) \<Rightarrow>
                                  (None, snd (addToDownloadQueue e s1 p (description found))))
                           else (Some p, s))
                    else if t = ''service'' then (None, s)
                    else if t = ''shortcut'' then (None, s)
                    else if t = ''url'' then (None, s)
                    else (None, s))))"

subsection \<open>Invariant and guards of the queue\<close>

text \<open>The array has its declared size and \<open>0 \<le> cursor \<le> count \<le> capacity\<close>.\<close>

definition queue_ok :: "state \<Rightarrow> bool" where
  "queue_ok s = (length (downloadQueue s) = MAX_DOWNLOAD_QUEUE
     \<and> downloadQueueIndex s \<le> downloadQueueCount s
     \<and> downloadQueueCount s \<le> MAX_DOWNLOAD_QUEUE)"

text \<open>The four early returns of \<^verbatim>\<open>processDownloadQueue\<close> are all passed: the item at the
  cursor is attempted.\<close>

definition attempted :: "env \<Rightarrow> state \<Rightarrow> bool" where
  "attempted e s = (downloadQueueIndex s < downloadQueueCount s \<and> wifi_connected e
     \<and> fst (initializeSDCard e s) \<and> \<not> inProgress (downloadQueue s ! downloadQueueIndex s))"

subsection \<open>The cleaning rule of the specification\<close>

text \<open>The cleaning rule in the specification's words, without the bound on the length:
  alphanumerics, dot, hyphen and underscore are kept, a space becomes an underscore, every
  other character is dropped.\<close>

definition sanitize :: "string \<Rightarrow> string" where
  "sanitize cs = concat (map (\<lambda>c.
      if isalnum c \<or> c = CHR ''.'' \<or> c = CHR ''-'' \<or> c = CHR ''_'' then [c]
      else if c = CHR '' '' then ''_'' else []) cs)"

subsection \<open>Example environments and states\<close>

text \<open>The state after static initialisation, before \<^verbatim>\<open>setup()\<close>.\<close>

definition boot_state :: state where
  "boot_state = \<lparr>knownFiles = replicate 50 \<lparr>audioKey = [], description = None, type = None, path = None\<rparr>,
     knownSequenceCount = 0, lastCacheTime = 0, sdCardInitialized = False,
     downloadQueue = replicate 20 \<lparr>url = [], localPath = [], itemDescription = [], inProgress = False\<rparr>,
     downloadQueueCount = 0, downloadQueueIndex = 0, lastDownloadCheck = 0,
     sd_card = Map.empty, http_requests = []\<rparr>"

definition not_found :: http_response where
  "not_found = \<lparr>r_code = 404, r_size = 0, r_payload = [], r_polls = []\<rparr>"

text \<open>WiFi up, a working card, a server that answers 404 to everything.\<close>

definition online_env :: env where
  "online_env = \<lparr>wifi_connected = True, sd_begin_ok = True, sd_card_present = True,
     sd_mkdir_ok = True, sd_open_read_ok = (\<lambda>p. True), sd_open_write_ok = (\<lambda>p. True),
     millis = 5000, http_GET = (\<lambda>u. not_found), deserializeJson = (\<lambda>t. None),
     serializeJson = (\<lambda>fs. ''{}''), toInt = (\<lambda>t. 0)\<rparr>"


definition three_bytes :: http_response where
  "three_bytes = \<lparr>r_code = 200, r_size = 3, r_payload = [],
     r_polls = [\<lparr>p_connected = True, p_available = 3, p_data = ''abc''\<rparr>]\<rparr>"

definition serving_env :: env where
  "serving_env = online_env\<lparr>http_GET := (\<lambda>u. three_bytes)\<rparr>"

text \<open>One registry entry, the one of the spec's examples.\<close>

definition one_known :: state where
  "one_known = boot_state\<lparr>knownFiles := (knownFiles boot_state)
       [0 := \<lparr>audioKey = ''123'', description = Some ''Welcome'', type = Some ''audio'',
              path = Some ''https://x/a.mp3''\<rparr>],
     knownSequenceCount := 1\<rparr>"

definition one_queued :: state where
  "one_queued = boot_state\<lparr>downloadQueue := (downloadQueue boot_state)
       [0 := \<lparr>url = ''https://x/a.mp3'', localPath = ''/audio/a.mp3'',
              itemDescription = ''Welcome'', inProgress = False\<rparr>],
     downloadQueueCount := 1\<rparr>"

definition full_queue :: state where
  "full_queue = boot_state\<lparr>downloadQueue :=
       map (\<lambda>n. \<lparr>url = ''https://x/'' @ decimal n @ ''.mp3'',
                 localPath = ''/audio/'' @ decimal n @ ''.mp3'',
                 itemDescription = ''Track'', inProgress = False\<rparr>) [0..<20],
     downloadQueueCount := 20\<rparr>"

text \<open>A registry file and a server answer that the JSON library rejects.\<close>

definition garbled_card :: state where
  "garbled_card = one_known\<lparr>sd_card := [AUDIO_JSON_FILE \<mapsto> SDFile ''{bad'']\<rparr>"

definition garbled_env :: env where
  "garbled_env = online_env\<lparr>http_GET :=
     (\<lambda>u. \<lparr>r_code = 200, r_size = 5, r_payload = ''{bad'', r_polls = []\<rparr>)\<rparr>"

text \<open>Two locators whose final segments have 67 characters and differ in the extension.\<close>

definition long_mp3 :: string where
  "long_mp3 = ''https://x/aaaaaaaaaaaaaaaaaaaaaaaaaaaaaaaaaaaaaaaaaaaaaaaaaaaaaaaaaaaaaaa.mp3''"

definition long_wav :: string where
  "long_wav = ''https://x/aaaaaaaaaaaaaaaaaaaaaaaaaaaaaaaaaaaaaaaaaaaaaaaaaaaaaaaaaaaaaaa.wav''"

text \<open>A locator of 264 characters, and the state after it is enqueued twice from boot.\<close>

definition long_locator :: string where
  "long_locator = ''https://x/bbbbbbbbbbbbbbbbbbbbbbbbbbbbbbbbbbbbbbbbbbbbbbbbbbbbbbbbbbbbbbbbbbbbbbbbbbbbbbbbbbbbbbbbbbbbbbbbbbbbbbbbbbbbbbbbbbbbbbbbbbbbbbbbbbbbbbbbbbbbbbbbbbbbbbbbbbbbbbbbbbbbbbbbbbbbbbbbbbbbbbbbbbbbbbbbbbbbbbbbbbbbbbbbbbbbbbbbbbbbbbbbbbbbbbbbbbbbbbbbbbbbbbbbbb.mp3''"

definition twice_long :: state where
  "twice_long = snd (addToDownloadQueue online_env
      (snd (addToDownloadQueue online_env boot_state long_locator None)) long_locator None)"

text \<open>The registry of \<open>one_known\<close> next to a full queue, and next to a card that holds the
  downloaded file.\<close>

definition full_known :: state where
  "full_known = full_queue\<lparr>knownFiles := knownFiles one_known, knownSequenceCount := 1\<rparr>"

definition cached_known :: state where
  "cached_known = one_known\<lparr>sd_card := [''/audio/a.mp3'' \<mapsto> SDFile ''abc'']\<rparr>"

text \<open>A server whose registry is the empty object, and one whose registry has one record;
  \<open>later_env\<close> is the second one a second later.\<close>

definition empty_object :: http_response where
  "empty_object = \<lparr>r_code = 200, r_size = 2, r_payload = ''{}'', r_polls = []\<rparr>"

definition empty_registry_env :: env where
  "empty_registry_env = online_env\<lparr>http_GET := (\<lambda>u. empty_object),
     deserializeJson := (\<lambda>t. Some [])\<rparr>"

definition one_record :: http_response where
  "one_record = \<lparr>r_code = 200, r_size = 60,
     r_payload = ''{\"123\":{\"type\":\"audio\",\"path\":\"https://x/a.mp3\"}}'', r_polls = []\<rparr>"

definition registry_env :: env where
  "registry_env = online_env\<lparr>http_GET := (\<lambda>u. one_record),
     deserializeJson := (\<lambda>t. Some [(''123'', \<lparr>j_description = None, j_type = Some ''audio'',
                                              j_path = Some ''https://x/a.mp3''\<rparr>)]),
     toInt := (\<lambda>t. if t = ''5000'' then 5000 else 0)\<rparr>"

definition later_env :: env where
  "later_env = registry_env\<lparr>millis := 6000\<rparr>"

subsection \<open>The mark file as the library reads it\<close>

text \<open>\<^verbatim>\<open>String::toInt()\<close> belongs to the Arduino core, not to this repository. On the
  32-bit target it is \<^verbatim>\<open>atol\<close> on the text: leading white space is skipped, a sign is
  read, the decimal digits that follow are the value, and a value outside the range of
  \<^verbatim>\<open>long\<close> saturates at \<open>2^31 - 1\<close> or \<open>- 2^31\<close>. The assignment to
  \<^verbatim>\<open>unsigned long savedTime\<close> converts the result.\<close>

definition isspace :: "char \<Rightarrow> bool" where
  "isspace c = (let n = (of_char c :: nat) in n = 32 \<or> (9 \<le> n \<and> n \<le> 13))"

definition isdigit :: "char \<Rightarrow> bool" where
  "isdigit c = (let n = (of_char c :: nat) in 48 \<le> n \<and> n \<le> 57)"

fun digits_value :: "string \<Rightarrow> nat \<Rightarrow> nat" where
  "digits_value [] acc = acc"
| "digits_value (c # cs) acc =
     (if isdigit c then digits_value cs (acc * 10 + (of_char c - 48)) else acc)"

definition atol :: "string \<Rightarrow> int" where
  "atol t =
     (let r = dropWhile isspace t in
      if r \<noteq> [] \<and> hd r = CHR ''-'' then max (- 2147483648) (- int (digits_value (tl r) 0))
      else if r \<noteq> [] \<and> hd r = CHR ''+'' then min 2147483647 (int (digits_value (tl r) 0))
      else min 2147483647 (int (digits_value r 0)))"

definition String_toInt :: "string \<Rightarrow> ulong" where
  "String_toInt t = word_of_int (atol t)"

text \<open>The clock ten ticks before it wraps and five ticks after, with the library's
  \<open>toInt\<close>, and the state after the code has saved a registry of one record at the first
  of the two readings.\<close>

definition before_rollover_env :: env where
  "before_rollover_env = online_env\<lparr>millis := 4294967286, toInt := String_toInt\<rparr>"

definition after_rollover_env :: env where
  "after_rollover_env = before_rollover_env\<lparr>millis := 5\<rparr>"

definition marked_before_rollover :: state where
  "marked_before_rollover = snd (saveKnownSequencesToSDCard before_rollover_env one_known)"

section \<open>Properties\<close>

subsection \<open>Facts about the SD driver\<close>

lemma initializeSDCard_fields [simp]:
  "sd_card (snd (initializeSDCard e s)) = sd_card s"
  "knownFiles (snd (initializeSDCard e s)) = knownFiles s"
  "knownSequenceCount (snd (initializeSDCard e s)) = knownSequenceCount s"
  "downloadQueue (snd (initializeSDCard e s)) = downloadQueue s"
  "downloadQueueCount (snd (initializeSDCard e s)) = downloadQueueCount s"
  "downloadQueueIndex (snd (initializeSDCard e s)) = downloadQueueIndex s"
  "http_requests (snd (initializeSDCard e s)) = http_requests s"
  by (simp_all add: initializeSDCard_def)

lemma SD_open_read_cong: "sd_card s1 = sd_card s \<Longrightarrow> SD_open_read e s1 p = SD_open_read e s p"
  by (simp add: SD_open_read_def)

lemma SD_exists_cong: "sd_card s1 = sd_card s \<Longrightarrow> SD_exists s1 p = SD_exists s p"
  by (simp add: SD_exists_def)

lemma SD_fields [simp]:
  "downloadQueueIndex (SD_write s p c) = downloadQueueIndex s"
  "downloadQueueCount (SD_write s p c) = downloadQueueCount s"
  "downloadQueue (SD_write s p c) = downloadQueue s"
  "downloadQueueIndex (SD_mkdir s p) = downloadQueueIndex s"
  "downloadQueueCount (SD_mkdir s p) = downloadQueueCount s"
  "downloadQueue (SD_mkdir s p) = downloadQueue s"
  by (simp_all add: SD_write_def SD_mkdir_def)

subsection \<open>The drive step\<close>

lemma set_inProgress_fields [simp]:
  "downloadQueueIndex (set_inProgress s i b) = downloadQueueIndex s"
  "downloadQueueCount (set_inProgress s i b) = downloadQueueCount s"
  "length (downloadQueue (set_inProgress s i b)) = length (downloadQueue s)"
  "sd_card (set_inProgress s i b) = sd_card s"
  "i < length (downloadQueue s) \<Longrightarrow>
     url (downloadQueue (set_inProgress s i b) ! i) = url (downloadQueue s ! i)"
  "i < length (downloadQueue s) \<Longrightarrow>
     localPath (downloadQueue (set_inProgress s i b) ! i) = localPath (downloadQueue s ! i)"
  by (simp_all add: set_inProgress_def)

lemma finish_item_fields [simp]:
  "downloadQueueIndex (finish_item s) = downloadQueueIndex s + 1"
  "downloadQueueCount (finish_item s) = downloadQueueCount s"
  by (simp_all add: finish_item_def)

lemma SD_exists_set_inProgress [simp]: "SD_exists (set_inProgress s i b) p = SD_exists s p"
  by (simp add: SD_exists_def)

lemma download_item_result:
  assumes "downloadQueueIndex s < length (downloadQueue s)"
  shows "case download_item e (set_inProgress s (downloadQueueIndex s) True) of
           None \<Rightarrow> download_chunks (r_polls (http_GET e (url (downloadQueue s ! downloadQueueIndex s))))
                     (r_size (http_GET e (url (downloadQueue s ! downloadQueueIndex s)))) [] 0 = None
         | Some (r, s') \<Rightarrow>
             r = ((SD_exists s AUDIO_FILES_DIR \<or> sd_mkdir_ok e)
                  \<and> r_code (http_GET e (url (downloadQueue s ! downloadQueueIndex s))) = 200
                  \<and> sd_open_write_ok e (localPath (downloadQueue s ! downloadQueueIndex s)))
             \<and> downloadQueueIndex s' = downloadQueueIndex s + 1
             \<and> downloadQueueCount s' = downloadQueueCount s"
  using assms
  by (auto simp add: download_item_def Let_def split: option.splits)

text \<open>The chunk loop ends as soon as a poll finds the connection closed.\<close>

lemma download_chunks_returns:
  "\<exists>p \<in> set ps. \<not> p_connected p \<Longrightarrow> download_chunks ps n w t \<noteq> None"
  by (induction ps arbitrary: n w t) (auto simp add: Let_def)

text \<open>
  C1, as the code has it. On a queue that satisfies its invariant the drive step, when it
  returns, returns \<open>True\<close> exactly when the item at the cursor was attempted and its
  download went through: the audio directory exists or could be created, the GET answered
  200 and the destination file could be opened. It returns \<open>False\<close> when nothing was
  attempted and also when the attempted item failed. The cursor advances by one exactly
  when the item was attempted, whatever the outcome, and the count never changes. The
  step does not return only when the chunk loop of an attempted item never ends.
\<close>

theorem processDownloadQueue_result:
  assumes "queue_ok s"
  shows "case processDownloadQueue e s of
           None \<Rightarrow> attempted e s
             \<and> download_chunks (r_polls (http_GET e (url (downloadQueue s ! downloadQueueIndex s))))
                     (r_size (http_GET e (url (downloadQueue s ! downloadQueueIndex s)))) [] 0 = None
         | Some (r, s') \<Rightarrow>
             r = (attempted e s
                  \<and> (SD_exists s AUDIO_FILES_DIR \<or> sd_mkdir_ok e)
                  \<and> r_code (http_GET e (url (downloadQueue s ! downloadQueueIndex s))) = 200
                  \<and> sd_open_write_ok e (localPath (downloadQueue s ! downloadQueueIndex s)))
             \<and> downloadQueueIndex s' = downloadQueueIndex s + (if attempted e s then 1 else 0)
             \<and> downloadQueueCount s' = downloadQueueCount s"
proof (cases "attempted e s")
  case False
  then show ?thesis
    by (auto simp add: processDownloadQueue_def attempted_def initializeSDCard_def)
next
  case True
  obtain s1 where i: "initializeSDCard e s = (True, s1)"
    using True by (cases "initializeSDCard e s") (auto simp add: attempted_def)
  have q: "downloadQueue s1 = downloadQueue s" "downloadQueueIndex s1 = downloadQueueIndex s"
    "downloadQueueCount s1 = downloadQueueCount s" "sd_card s1 = sd_card s"
    using i initializeSDCard_fields [of e s] by simp_all
  have lt: "downloadQueueIndex s1 < length (downloadQueue s1)"
    using True assms by (simp add: q attempted_def queue_ok_def)
  have p: "processDownloadQueue e s = download_item e (set_inProgress s1 (downloadQueueIndex s1) True)"
    using True by (simp add: processDownloadQueue_def attempted_def i q)
  have ex: "SD_exists s1 AUDIO_FILES_DIR = SD_exists s AUDIO_FILES_DIR"
    by (simp add: SD_exists_def q)
  show ?thesis
    using download_item_result [OF lt, of e] True
    by (auto simp add: p q ex split: option.splits prod.splits)
qed

text \<open>The step on one pending item whose download succeeds: it returns \<open>True\<close>.\<close>

theorem processDownloadQueue_result_witness:
  "queue_ok one_queued \<and> processDownloadQueue serving_env one_queued \<noteq> None
    \<and> fst (the (processDownloadQueue serving_env one_queued))"
proof -
  have ok: "queue_ok one_queued"
    by (simp add: queue_ok_def one_queued_def boot_state_def MAX_DOWNLOAD_QUEUE_def)
  have c: "download_chunks
      (r_polls (http_GET serving_env (url (downloadQueue one_queued ! downloadQueueIndex one_queued))))
      (r_size (http_GET serving_env (url (downloadQueue one_queued ! downloadQueueIndex one_queued))))
      [] 0 \<noteq> None"
    by (simp add: serving_env_def online_env_def three_bytes_def)
  have a: "attempted serving_env one_queued"
    by (simp add: attempted_def one_queued_def boot_state_def serving_env_def online_env_def
        initializeSDCard_def)
  have g: "r_code (http_GET serving_env (url (downloadQueue one_queued ! downloadQueueIndex one_queued))) = 200"
     "sd_open_write_ok serving_env (localPath (downloadQueue one_queued ! downloadQueueIndex one_queued))"
     "sd_mkdir_ok serving_env"
    by (simp_all add: serving_env_def online_env_def three_bytes_def)
  show ?thesis
    using processDownloadQueue_result [OF ok, of serving_env] c a g ok
    by (auto split: option.splits)
qed

text \<open>
  C1 as the specification states it fails: with the network and the card available and a
  pending item at the cursor that is not in progress, a 404 answer makes the step return
  \<open>False\<close> although the item was processed and the cursor moved from 0 to 1.
\<close>

theorem processDownloadQueue_false_after_attempt:
  "attempted online_env one_queued
   \<and> map_option fst (processDownloadQueue online_env one_queued) = Some False
   \<and> map_option (\<lambda>r. downloadQueueIndex (snd r)) (processDownloadQueue online_env one_queued) = Some 1"
  by (simp add: attempted_def processDownloadQueue_def download_item_def one_queued_def boot_state_def
     online_env_def not_found_def initializeSDCard_def set_inProgress_def finish_item_def SD_exists_def
     SD_mkdir_def AUDIO_FILES_DIR_def Let_def)

text \<open>The public wrapper adds a rate limit: within the check interval nothing is attempted
  and the state is untouched; otherwise it is the drive step with the check time noted.\<close>

lemma processAudioDownloadQueue_rate_limit:
  "millis e - lastDownloadCheck s < DOWNLOAD_QUEUE_CHECK_INTERVAL_MS \<Longrightarrow>
     processAudioDownloadQueue e s = Some (False, s)"
  "\<not> millis e - lastDownloadCheck s < DOWNLOAD_QUEUE_CHECK_INTERVAL_MS \<Longrightarrow>
     processAudioDownloadQueue e s = processDownloadQueue e (s\<lparr>lastDownloadCheck := millis e\<rparr>)"
  by (simp_all add: processAudioDownloadQueue_def)

subsection \<open>Staleness\<close>

lemma cacheAge_sub: "cacheAge c m = c - m"
  by (simp add: cacheAge_def)

lemma maxAge_value: "maxAge = 604800000"
  by (simp add: maxAge_def CACHE_VALIDITY_HOURS_def)

text \<open>The arithmetic of the rollover branch alone: read as natural numbers, the age of a
  reading \<open>c\<close> against a mark \<open>m\<close> is \<open>(2^32 - 1 - m) + c + 1\<close> when \<open>c < m\<close> and
  \<open>c - m\<close> otherwise.\<close>

lemma cacheAge_wraparound:
  "unat (cacheAge c m) =
     (if unat c < unat m then (4294967295 - unat m) + unat c + 1 else unat c - unat m)
   \<and> cacheAge 5 (2 ^ 32 - 10) = 15"
proof -
  have "unat m < 4294967296"
    using unsigned_less [of m, where 'a = nat] by simp
  then show ?thesis
    by (auto simp add: cacheAge_sub unat_sub_if_size word_size)
qed



subsection \<open>Enqueue\<close>

text \<open>
  C8. When the count has reached \<^verbatim>\<open>MAX_DOWNLOAD_QUEUE\<close>, enqueue reports failure and the
  whole state, with every queue entry, the count and the cursor, is what it was.
\<close>

theorem addToDownloadQueue_full:
  "downloadQueueCount s \<ge> MAX_DOWNLOAD_QUEUE \<Longrightarrow> addToDownloadQueue e s u d = (False, s)"
  by (simp add: addToDownloadQueue_def)

theorem addToDownloadQueue_full_witness:
  "downloadQueueCount full_queue \<ge> MAX_DOWNLOAD_QUEUE
   \<and> addToDownloadQueue online_env full_queue ''https://x/new.mp3'' (Some ''New'') = (False, full_queue)"
proof -
  have h: "downloadQueueCount full_queue \<ge> MAX_DOWNLOAD_QUEUE"
    by (simp add: full_queue_def MAX_DOWNLOAD_QUEUE_def)
  show ?thesis
    using h addToDownloadQueue_full [OF h] by simp
qed

subsection \<open>Parse errors\<close>

lemma load_keeps_registry:
  assumes "SD_open_read e s AUDIO_JSON_FILE = Some j" "deserializeJson e j = None"
  shows "fst (loadKnownSequencesFromSDCard e s) = False
     \<and> knownFiles (snd (loadKnownSequencesFromSDCard e s)) = knownFiles s
     \<and> knownSequenceCount (snd (loadKnownSequencesFromSDCard e s)) = knownSequenceCount s"
proof -
  obtain ok s1 where i: "initializeSDCard e s = (ok, s1)"
    by (cases "initializeSDCard e s")
  then have f: "sd_card s1 = sd_card s" "knownFiles s1 = knownFiles s"
      "knownSequenceCount s1 = knownSequenceCount s"
    using initializeSDCard_fields [of e s] by simp_all
  have r: "SD_open_read e s1 AUDIO_JSON_FILE = Some j"
    using assms(1) SD_open_read_cong [OF f(1)] by simp
  show ?thesis
    by (cases ok)
      (simp_all add: loadKnownSequencesFromSDCard_def i r assms(2) f Let_def split: option.splits)
qed

lemma isCacheStale_fields [simp]:
  "knownFiles (snd (isCacheStale e s)) = knownFiles s"
  "knownSequenceCount (snd (isCacheStale e s)) = knownSequenceCount s"
  "http_requests (snd (isCacheStale e s)) = http_requests s"
  "sd_card (snd (isCacheStale e s)) = sd_card s"
  by (simp_all add: isCacheStale_def initializeSDCard_def Let_def split: option.splits)

lemma download_keeps_registry:
  assumes "fst (isCacheStale e s)"
    "deserializeJson e (r_payload (http_GET e KNOWN_FILES_URL)) = None"
  shows "fst (downloadAudio e s) = False
     \<and> knownFiles (snd (downloadAudio e s)) = knownFiles s
     \<and> knownSequenceCount (snd (downloadAudio e s)) = knownSequenceCount s"
proof -
  obtain st s1 where i: "isCacheStale e s = (st, s1)"
    by (cases "isCacheStale e s")
  then have f: "knownFiles s1 = knownFiles s" "knownSequenceCount s1 = knownSequenceCount s"
    using isCacheStale_fields [of e s] by simp_all
  have st: "st" using assms(1) i by simp
  show ?thesis
    using st by (simp add: downloadAudio_def i assms(2) f Let_def)
qed

text \<open>
  C9. When the text read from the registry file is rejected by the JSON library,
  \<^verbatim>\<open>loadKnownSequencesFromSDCard\<close> reports failure and the record array and its count are
  what they were; when the cache is stale and the server's answer is rejected,
  \<^verbatim>\<open>downloadAudio\<close> reports failure and the record array and its count are what they
  were.
\<close>

theorem parse_error_keeps_registry:
  "(SD_open_read e s AUDIO_JSON_FILE = Some j \<and> deserializeJson e j = None \<longrightarrow>
      fst (loadKnownSequencesFromSDCard e s) = False
     \<and> knownFiles (snd (loadKnownSequencesFromSDCard e s)) = knownFiles s
     \<and> knownSequenceCount (snd (loadKnownSequencesFromSDCard e s)) = knownSequenceCount s)
   \<and> (fst (isCacheStale e s)
        \<and> deserializeJson e (r_payload (http_GET e KNOWN_FILES_URL)) = None \<longrightarrow>
      fst (downloadAudio e s) = False
     \<and> knownFiles (snd (downloadAudio e s)) = knownFiles s
     \<and> knownSequenceCount (snd (downloadAudio e s)) = knownSequenceCount s)"
  using load_keeps_registry download_keeps_registry by blast

text \<open>Both paths on a registry of one record: the file is read and the request is made,
  both texts are rejected, both calls fail and the record stays.\<close>

theorem parse_error_keeps_registry_witness:
  "SD_open_read garbled_env garbled_card AUDIO_JSON_FILE = Some ''{bad''
   \<and> deserializeJson garbled_env ''{bad'' = None
   \<and> fst (isCacheStale garbled_env garbled_card)
   \<and> wifi_connected garbled_env
   \<and> r_code (http_GET garbled_env KNOWN_FILES_URL) = 200
   \<and> r_payload (http_GET garbled_env KNOWN_FILES_URL) = ''{bad''
   \<and> fst (loadKnownSequencesFromSDCard garbled_env garbled_card) = False
   \<and> knownSequenceCount (snd (loadKnownSequencesFromSDCard garbled_env garbled_card)) = 1
   \<and> fst (downloadAudio garbled_env garbled_card) = False
   \<and> knownSequenceCount (snd (downloadAudio garbled_env garbled_card)) = 1
   \<and> http_requests (snd (downloadAudio garbled_env garbled_card)) = [KNOWN_FILES_URL]"
proof -
  have a: "SD_open_read garbled_env garbled_card AUDIO_JSON_FILE = Some ''{bad''"
    by (simp add: SD_open_read_def garbled_env_def garbled_card_def online_env_def)
  have b: "deserializeJson garbled_env t = None" for t
    by (simp add: garbled_env_def online_env_def)
  have c: "fst (isCacheStale garbled_env garbled_card)"
    by (simp add: isCacheStale_def garbled_env_def garbled_card_def online_env_def one_known_def
       boot_state_def initializeSDCard_def SD_open_read_def AUDIO_JSON_FILE_def
       CACHE_TIMESTAMP_FILE_def)
  have d: "wifi_connected garbled_env" "r_code (http_GET garbled_env KNOWN_FILES_URL) = 200"
     "r_payload (http_GET garbled_env KNOWN_FILES_URL) = ''{bad''"
    by (simp_all add: garbled_env_def online_env_def)
  have n: "knownSequenceCount garbled_card = 1"
    by (simp add: garbled_card_def one_known_def)
  obtain s1 where i: "isCacheStale garbled_env garbled_card = (True, s1)"
    using c by (cases "isCacheStale garbled_env garbled_card") auto
  have "http_requests s1 = http_requests garbled_card"
    using isCacheStale_fields(3) [of garbled_env garbled_card] i by simp
  then have h: "http_requests s1 = []"
    by (simp add: garbled_card_def one_known_def boot_state_def)
  have r: "http_requests (snd (downloadAudio garbled_env garbled_card)) = [KNOWN_FILES_URL]"
    by (simp add: downloadAudio_def i d b h Let_def)
  show ?thesis
    using parse_error_keeps_registry [of garbled_env garbled_card "''{bad''"] a b c d n r
    by simp
qed

subsection \<open>The locator codec\<close>

lemma clean_take:
  "length out \<le> MAX_FILENAME_LENGTH - 1 \<Longrightarrow>
     clean cs out = take (MAX_FILENAME_LENGTH - 1) (out @ sanitize cs)"
proof (induction cs arbitrary: out)
  case Nil
  then show ?case by (simp add: sanitize_def)
next
  case (Cons c cs)
  show ?case
  proof (cases "length out < MAX_FILENAME_LENGTH - 1")
    case True
    then have l: "length (out @ [x]) \<le> MAX_FILENAME_LENGTH - 1" for x by simp
    show ?thesis
      using True Cons.IH [OF l] Cons.IH [OF Cons.prems]
      by (simp add: sanitize_def take_Cons')
  next
    case False
    then show ?thesis using Cons.prems by simp
  qed
qed

lemma find_unused_length:
  "find_unused s h n = Some f \<Longrightarrow> length f < MAX_FILENAME_LENGTH"
proof (induction s h n rule: find_unused.induct)
  case (1 s h counter)
  then show ?case
    by (subst (asm) (2) find_unused.simps)
       (auto simp add: Let_def snprintf_def MAX_FILENAME_LENGTH_def split: if_splits)
qed

lemma find_unused_cong:
  "sd_card s1 = sd_card s \<Longrightarrow> find_unused s1 h n = find_unused s h n"
proof (induction s h n rule: find_unused.induct)
  case (1 s h counter)
  show ?case
    using 1
    by (subst find_unused.simps, subst (2) find_unused.simps)
       (auto simp add: Let_def SD_exists_cong [OF 1(2)])
qed

lemma urlToFilename_result:
  "\<exists>f. fst (urlToFilename e s (Some u)) = Some f \<and> length f < MAX_FILENAME_LENGTH
     \<and> (CHR ''.'' \<in> set (urlFilename u) \<longrightarrow>
          f = take (MAX_FILENAME_LENGTH - 1) (sanitize (urlFilename u))
          \<and> snd (urlToFilename e s (Some u)) = s)"
proof (cases "CHR ''.'' \<in> set (urlFilename u)")
  case True
  then have ne: "urlFilename u \<noteq> []" by auto
  have c: "clean (urlFilename u) [] = take (MAX_FILENAME_LENGTH - 1) (sanitize (urlFilename u))"
    using clean_take [of "[]" "urlFilename u"] by simp
  have "CHR ''.'' \<in> set (sanitize (urlFilename u))"
    using True by (auto simp add: sanitize_def)
  then have "sanitize (urlFilename u) \<noteq> []" by auto
  then have n: "clean (urlFilename u) [] \<noteq> []"
    by (simp add: c MAX_FILENAME_LENGTH_def)
  show ?thesis
    using True ne n c by (simp add: urlToFilename_def Let_def MAX_FILENAME_LENGTH_def)
next
  case False
  then show ?thesis
    by (auto simp add: urlToFilename_def Let_def snprintf_def MAX_FILENAME_LENGTH_def
         split: prod.splits option.splits dest: find_unused_length)
qed

text \<open>
  C5, as the code has it. For every locator that is not null the codec succeeds, and its
  output is the audio directory, a slash and an identifier of fewer than
  \<^verbatim>\<open>MAX_FILENAME_LENGTH\<close> characters. When the final path segment of the locator has a
  dot, the identifier is the sanitised segment cut to its first
  \<^verbatim>\<open>MAX_FILENAME_LENGTH - 1\<close> characters: a long identifier is truncated, and no failure
  is reported.
\<close>

theorem getLocalAudioPath_composes:
  "\<exists>f. fst (getLocalAudioPath e s (Some u)) = Some (AUDIO_FILES_DIR @ ''/'' @ f)
      \<and> length f < MAX_FILENAME_LENGTH
      \<and> (CHR ''.'' \<in> set (urlFilename u) \<longrightarrow>
           f = take (MAX_FILENAME_LENGTH - 1) (sanitize (urlFilename u)))"
proof -
  obtain f where f: "fst (urlToFilename e s (Some u)) = Some f" "length f < MAX_FILENAME_LENGTH"
    "CHR ''.'' \<in> set (urlFilename u) \<longrightarrow>
          f = take (MAX_FILENAME_LENGTH - 1) (sanitize (urlFilename u))"
    using urlToFilename_result [of e s u] by blast
  have "length (AUDIO_FILES_DIR @ ''/'' @ f) \<le> 127"
    using f(2) by (simp add: AUDIO_FILES_DIR_def MAX_FILENAME_LENGTH_def)
  then have "snprintf 128 (AUDIO_FILES_DIR @ ''/'' @ f) = AUDIO_FILES_DIR @ ''/'' @ f"
    by (simp add: snprintf_def)
  then show ?thesis
    using f by (cases "urlToFilename e s (Some u)") (auto simp add: getLocalAudioPath_def)
qed

theorem getLocalAudioPath_composes_witness:
  "CHR ''.'' \<in> set (urlFilename long_mp3)
   \<and> fst (getLocalAudioPath online_env boot_state (Some long_mp3)) = Some (''/audio/aaaaaaaaaaaaaaaaaaaaaaaaaaaaaaaaaaaaaaaaaaaaaaaaaaaaaaaaaaaaaaa'')"
proof -
  have d: "CHR ''.'' \<in> set (urlFilename long_mp3)"
    by (simp add: long_mp3_def urlFilename_def)
  have t: "take (MAX_FILENAME_LENGTH - 1) (sanitize (urlFilename long_mp3)) = ''aaaaaaaaaaaaaaaaaaaaaaaaaaaaaaaaaaaaaaaaaaaaaaaaaaaaaaaaaaaaaaa''"
    by (simp add: long_mp3_def urlFilename_def sanitize_def isalnum_def MAX_FILENAME_LENGTH_def)
  show ?thesis
    using getLocalAudioPath_composes [of online_env boot_state long_mp3] d t
    by (auto simp add: AUDIO_FILES_DIR_def)
qed

text \<open>
  C5 as the specification states it fails: the two locators have different final segments
  of 67 characters, both calls succeed, and both give the same path, whose identifier is
  the first 63 characters with the extension cut off.
\<close>

theorem getLocalAudioPath_truncates_silently:
  "urlFilename long_mp3 \<noteq> urlFilename long_wav
   \<and> fst (getLocalAudioPath online_env boot_state (Some long_mp3)) = Some (''/audio/aaaaaaaaaaaaaaaaaaaaaaaaaaaaaaaaaaaaaaaaaaaaaaaaaaaaaaaaaaaaaaa'')
   \<and> fst (getLocalAudioPath online_env boot_state (Some long_wav)) = Some (''/audio/aaaaaaaaaaaaaaaaaaaaaaaaaaaaaaaaaaaaaaaaaaaaaaaaaaaaaaaaaaaaaaa'')"
  by (simp add: long_mp3_def long_wav_def getLocalAudioPath_def urlToFilename_def urlFilename_def
      isalnum_def MAX_FILENAME_LENGTH_def AUDIO_FILES_DIR_def snprintf_def Let_def)

subsection \<open>Enqueue: what a call does to the queue\<close>

lemma urlToFilename_fst:
  "fst (urlToFilename e s (Some u)) =
     Some (let cleaned = clean (urlFilename u) [] in
           if length (urlFilename u) > 0 \<and> CHR ''.'' \<in> set (urlFilename u) \<and> length cleaned > 0
           then cleaned
           else
             (let h = hash_loop u 5381;
                  baseFilename = snprintf MAX_FILENAME_LENGTH (''audio_'' @ hex08 h @ ''.mp3'')
              in if fst (initializeSDCard e s)
                    \<and> SD_exists s (snprintf 128 (AUDIO_FILES_DIR @ ''/'' @ baseFilename))
                 then (case find_unused s h 1 of
                         Some filename \<Rightarrow> filename
                       | None \<Rightarrow> snprintf MAX_FILENAME_LENGTH baseFilename)
                 else snprintf MAX_FILENAME_LENGTH baseFilename))"
proof -
  obtain ok s1 where i: "initializeSDCard e s = (ok, s1)"
    by (cases "initializeSDCard e s")
  then have c: "sd_card s1 = sd_card s"
    using initializeSDCard_fields(1) [of e s] by simp
  show ?thesis
    by (simp add: urlToFilename_def Let_def i find_unused_cong [OF c] SD_exists_cong [OF c]
         split: option.splits)
qed

lemma initializeSDCard_cong:
  "sdCardInitialized s1 = sdCardInitialized s \<Longrightarrow>
     fst (initializeSDCard e s1) = fst (initializeSDCard e s)"
  by (simp add: initializeSDCard_def)

lemma getLocalAudioPath_fst:
  "fst (getLocalAudioPath e s (Some u)) =
     Some (snprintf 128 (AUDIO_FILES_DIR @ ''/'' @ the (fst (urlToFilename e s (Some u)))))"
  using urlToFilename_result [of e s u]
  by (cases "urlToFilename e s (Some u)") (auto simp add: getLocalAudioPath_def)

lemma getLocalAudioPath_cong:
  assumes "sd_card s1 = sd_card s" "sdCardInitialized s1 = sdCardInitialized s"
  shows "fst (getLocalAudioPath e s1 (Some u)) = fst (getLocalAudioPath e s (Some u))"
  by (simp add: getLocalAudioPath_fst urlToFilename_fst find_unused_cong [OF assms(1)]
       SD_exists_cong [OF assms(1)] initializeSDCard_cong [OF assms(2)] Let_def)

lemma initializeSDCard_cases:
  "snd (initializeSDCard e s) = s \<or> snd (initializeSDCard e s) = s\<lparr>sdCardInitialized := True\<rparr>"
  by (simp add: initializeSDCard_def)

lemma urlToFilename_snd:
  "snd (urlToFilename e s x) = s \<or> snd (urlToFilename e s x) = s\<lparr>sdCardInitialized := True\<rparr>"
  using initializeSDCard_cases [of e s]
  by (auto simp add: urlToFilename_def Let_def split: option.splits prod.splits)

lemma getLocalAudioPath_snd:
  "snd (getLocalAudioPath e s x) = s \<or> snd (getLocalAudioPath e s x) = s\<lparr>sdCardInitialized := True\<rparr>"
  using urlToFilename_snd [of e s x]
  by (auto simp add: getLocalAudioPath_def split: option.splits prod.splits)

lemma item_update_all:
  "(x :: AudioDownloadItem)\<lparr>url := a, localPath := b, itemDescription := c, inProgress := d\<rparr>
     = \<lparr>url = a, localPath = b, itemDescription = c, inProgress = d\<rparr>"
  by (cases x) simp

lemma addToDownloadQueue_new:
  assumes "downloadQueueCount s < MAX_DOWNLOAD_QUEUE" "u \<notin> set (queued_urls s)"
  shows "fst (addToDownloadQueue e s u d)
    \<and> downloadQueueCount (snd (addToDownloadQueue e s u d)) = downloadQueueCount s + 1
    \<and> downloadQueueIndex (snd (addToDownloadQueue e s u d)) = downloadQueueIndex s
    \<and> downloadQueue (snd (addToDownloadQueue e s u d)) =
        (downloadQueue s)[downloadQueueCount s :=
           \<lparr>url = strncpy_buf 256 u,
            localPath = the (fst (getLocalAudioPath e s (Some u))),
            itemDescription = strncpy_buf 64 (case d of None \<Rightarrow> ''Unknown'' | Some x \<Rightarrow> x),
            inProgress = False\<rparr>]"
proof -
  define s1 where "s1 = s\<lparr>downloadQueue := (downloadQueue s)[downloadQueueCount s :=
        (downloadQueue s ! downloadQueueCount s)\<lparr>url := strncpy_buf 256 u\<rparr>]\<rparr>"
  have c: "sd_card s1 = sd_card s" "sdCardInitialized s1 = sdCardInitialized s"
    by (simp_all add: s1_def)
  obtain p where p: "fst (getLocalAudioPath e s (Some u)) = Some p"
    using getLocalAudioPath_fst [of e s u] by blast
  then have p1: "fst (getLocalAudioPath e s1 (Some u)) = Some p"
    using getLocalAudioPath_cong [OF c, of e u] by simp
  obtain s2 where s2: "getLocalAudioPath e s1 (Some u) = (Some p, s2)"
    using p1 by (cases "getLocalAudioPath e s1 (Some u)") auto
  have "s2 = s1 \<or> s2 = s1\<lparr>sdCardInitialized := True\<rparr>"
    using getLocalAudioPath_snd [of e s1 "Some u"] s2 by simp
  then have f: "downloadQueue s2 = downloadQueue s1" "downloadQueueIndex s2 = downloadQueueIndex s1"
    by auto
  have a: "addToDownloadQueue e s u d =
     (True, s2\<lparr>downloadQueue := (downloadQueue s2)[downloadQueueCount s :=
                   (downloadQueue s2 ! downloadQueueCount s)
                     \<lparr>localPath := p,
                      itemDescription := strncpy_buf 64 (case d of None \<Rightarrow> ''Unknown'' | Some x \<Rightarrow> x),
                      inProgress := False\<rparr>],
                downloadQueueCount := downloadQueueCount s + 1\<rparr>)"
    using assms s2 by (simp add: addToDownloadQueue_def Let_def s1_def [symmetric])
  show ?thesis
  proof (cases "downloadQueueCount s < length (downloadQueue s)")
    case True
    then show ?thesis
      by (simp add: a f p s1_def item_update_all)
  next
    case False
    then show ?thesis
      by (simp add: a f p s1_def list_update_beyond)
  qed
qed



lemma queued_urls_new:
  assumes "queue_ok s" "downloadQueueCount s < MAX_DOWNLOAD_QUEUE" "u \<notin> set (queued_urls s)"
  shows "queued_urls (snd (addToDownloadQueue e s u d)) = queued_urls s @ [strncpy_buf 256 u]"
proof -
  have l: "downloadQueueCount s < length (downloadQueue s)"
    using assms(1,2) by (simp add: queue_ok_def)
  show ?thesis
    using addToDownloadQueue_new [OF assms(2,3), of e d] l
    by (simp add: queued_urls_def take_Suc_conv_app_nth)
qed

lemma queue_ok_add:
  assumes "queue_ok s"
  shows "queue_ok (snd (addToDownloadQueue e s u d))"
proof (cases "downloadQueueCount s < MAX_DOWNLOAD_QUEUE \<and> u \<notin> set (queued_urls s)")
  case True
  then show ?thesis
    using addToDownloadQueue_new [of s u e d] assms by (simp add: queue_ok_def)
next
  case False
  then show ?thesis
    using assms by (auto simp add: addToDownloadQueue_def)
qed

text \<open>
  C3, as the code has it. Below capacity, enqueuing a locator that is already stored
  reports success and changes nothing. Enqueuing a new locator of at most 255 characters
  into a queue with at least two free places stores it once, and enqueuing it again
  reports success and changes nothing.
\<close>

theorem addToDownloadQueue_idempotent:
  "(downloadQueueCount s < MAX_DOWNLOAD_QUEUE \<and> u \<in> set (queued_urls s) \<longrightarrow>
       addToDownloadQueue e s u d = (True, s))
   \<and> (queue_ok s \<and> downloadQueueCount s + 1 < MAX_DOWNLOAD_QUEUE \<and> u \<notin> set (queued_urls s)
        \<and> length u \<le> 255 \<longrightarrow>
        fst (addToDownloadQueue e s u d)
        \<and> addToDownloadQueue e (snd (addToDownloadQueue e s u d)) u d'
            = (True, snd (addToDownloadQueue e s u d))
        \<and> queued_urls (snd (addToDownloadQueue e s u d)) = queued_urls s @ [u])"
proof (intro conjI impI)
  assume "downloadQueueCount s < MAX_DOWNLOAD_QUEUE \<and> u \<in> set (queued_urls s)"
  then show "addToDownloadQueue e s u d = (True, s)"
    by (simp add: addToDownloadQueue_def)
next
  assume h: "queue_ok s \<and> downloadQueueCount s + 1 < MAX_DOWNLOAD_QUEUE \<and> u \<notin> set (queued_urls s)
        \<and> length u \<le> 255"
  then have lt: "downloadQueueCount s < MAX_DOWNLOAD_QUEUE" by simp
  have new: "u \<notin> set (queued_urls s)" using h by simp
  show "fst (addToDownloadQueue e s u d)"
    using addToDownloadQueue_new [OF lt new, of e d] by simp
  show q: "queued_urls (snd (addToDownloadQueue e s u d)) = queued_urls s @ [u]"
    using queued_urls_new [of s u e d] h lt by (simp add: strncpy_buf_def)
  have c: "downloadQueueCount (snd (addToDownloadQueue e s u d)) < MAX_DOWNLOAD_QUEUE"
    using addToDownloadQueue_new [OF lt new, of e d] h by simp
  show "addToDownloadQueue e (snd (addToDownloadQueue e s u d)) u d'
            = (True, snd (addToDownloadQueue e s u d))"
    using c by (simp add: addToDownloadQueue_def [of e "snd (addToDownloadQueue e s u d)"] q)
qed

text \<open>From boot: the locator is stored once, and the second call is a successful no-op.\<close>

theorem addToDownloadQueue_idempotent_witness:
  "downloadQueueCount one_queued < MAX_DOWNLOAD_QUEUE
   \<and> ''https://x/a.mp3'' \<in> set (queued_urls one_queued)
   \<and> addToDownloadQueue online_env one_queued ''https://x/a.mp3'' None = (True, one_queued)
   \<and> queue_ok boot_state \<and> downloadQueueCount boot_state + 1 < MAX_DOWNLOAD_QUEUE
   \<and> ''https://x/a.mp3'' \<notin> set (queued_urls boot_state)
   \<and> fst (addToDownloadQueue online_env boot_state ''https://x/a.mp3'' None)
   \<and> addToDownloadQueue online_env
        (snd (addToDownloadQueue online_env boot_state ''https://x/a.mp3'' None)) ''https://x/a.mp3'' None
       = (True, snd (addToDownloadQueue online_env boot_state ''https://x/a.mp3'' None))
   \<and> queued_urls (snd (addToDownloadQueue online_env boot_state ''https://x/a.mp3'' None))
       = [''https://x/a.mp3'']"
proof -
  have a: "downloadQueueCount one_queued < MAX_DOWNLOAD_QUEUE"
    by (simp add: one_queued_def boot_state_def MAX_DOWNLOAD_QUEUE_def)
  have b: "''https://x/a.mp3'' \<in> set (queued_urls one_queued)"
    by code_simp
  have ok: "queue_ok boot_state"
    by (simp add: queue_ok_def boot_state_def MAX_DOWNLOAD_QUEUE_def)
  have c: "downloadQueueCount boot_state + 1 < MAX_DOWNLOAD_QUEUE"
    by (simp add: boot_state_def MAX_DOWNLOAD_QUEUE_def)
  have e: "queued_urls boot_state = []"
    by (simp add: queued_urls_def boot_state_def)
  have l: "length ''https://x/a.mp3'' \<le> 255" by simp
  show ?thesis
    using addToDownloadQueue_idempotent [of one_queued "''https://x/a.mp3''" online_env None None]
      addToDownloadQueue_idempotent [of boot_state "''https://x/a.mp3''" online_env None None] a b ok c e l
    by simp
qed

text \<open>
  C3 as the specification states it fails: the capacity test comes before the search, so
  on a full queue a locator that is already stored is answered with failure.
\<close>

theorem addToDownloadQueue_full_duplicate_fails:
  "''https://x/7.mp3'' \<in> set (queued_urls full_queue)
   \<and> addToDownloadQueue online_env full_queue ''https://x/7.mp3'' (Some ''Seven'') = (False, full_queue)"
proof -
  have "''https://x/7.mp3'' \<in> set (queued_urls full_queue)"
    by code_simp
  moreover have "addToDownloadQueue online_env full_queue ''https://x/7.mp3'' (Some ''Seven'') = (False, full_queue)"
    by (simp add: addToDownloadQueue_def full_queue_def MAX_DOWNLOAD_QUEUE_def)
  ultimately show ?thesis by simp
qed

subsection \<open>Distinct locators in the queue\<close>

text \<open>Locators that fit the \<^verbatim>\<open>url\<close> buffer keep the stored locators distinct, and
  clearing the queue leaves none.\<close>

lemma short_locators_stay_distinct:
  assumes "queue_ok s" "distinct (queued_urls s)" "length u \<le> 255"
  shows "distinct (queued_urls (snd (addToDownloadQueue e s u d)))"
proof (cases "downloadQueueCount s < MAX_DOWNLOAD_QUEUE \<and> u \<notin> set (queued_urls s)")
  case True
  then show ?thesis
    using queued_urls_new [of s u e d] assms by (simp add: strncpy_buf_def)
next
  case False
  then show ?thesis
    using assms by (auto simp add: addToDownloadQueue_def)
qed

lemma clearDownloadQueue_urls: "queued_urls (clearDownloadQueue s) = []"
  by (simp add: queued_urls_def clearDownloadQueue_def)


text \<open>The drive step does not touch the stored locators.\<close>

lemma queued_urls_init [simp]: "queued_urls (snd (initializeSDCard e s)) = queued_urls s"
  by (simp add: queued_urls_def)

lemma map_url_set_inProgress:
  "map url (downloadQueue (set_inProgress s i b)) = map url (downloadQueue s)"
proof (cases "i < length (downloadQueue s)")
  case True
  then show ?thesis
    by (simp add: set_inProgress_def map_update list_update_same_conv)
next
  case False
  then show ?thesis
    by (simp add: set_inProgress_def list_update_beyond)
qed

lemma queued_urls_set_inProgress [simp]:
  "queued_urls (set_inProgress s i b) = queued_urls s"
proof -
  have "take (downloadQueueCount s) (map url (downloadQueue (set_inProgress s i b)))
      = take (downloadQueueCount s) (map url (downloadQueue s))"
    by (simp only: map_url_set_inProgress)
  then show ?thesis
    by (simp add: queued_urls_def take_map)
qed

lemma queued_urls_finish_item [simp]: "queued_urls (finish_item s) = queued_urls s"
proof -
  have "queued_urls (finish_item s) = queued_urls (set_inProgress s (downloadQueueIndex s) False)"
    by (simp add: queued_urls_def finish_item_def)
  then show ?thesis by simp
qed

lemma queued_urls_SD [simp]:
  "queued_urls (SD_write s p c) = queued_urls s"
  "queued_urls (SD_mkdir s p) = queued_urls s"
  "queued_urls (s\<lparr>http_requests := h\<rparr>) = queued_urls s"
  by (simp_all add: queued_urls_def)

lemma download_item_keeps_urls:
  "download_item e s = Some (r, s') \<Longrightarrow> queued_urls s' = queued_urls s"
  by (auto simp add: download_item_def Let_def split: if_splits option.splits)

lemma processDownloadQueue_keeps_urls:
  assumes "processDownloadQueue e s = Some (r, s')"
  shows "queued_urls s' = queued_urls s"
proof -
  obtain ok s1 where i: "initializeSDCard e s = (ok, s1)"
    by (cases "initializeSDCard e s")
  have q: "queued_urls s1 = queued_urls s"
    using queued_urls_init [of e s] i by simp
  consider "s' = s" | "s' = s1"
    | "download_item e (set_inProgress s1 (downloadQueueIndex s1) True) = Some (r, s')"
    using assms by (cases ok) (auto simp add: processDownloadQueue_def i split: if_splits)
  then show ?thesis
  proof cases
    case 1
    then show ?thesis by simp
  next
    case 2
    then show ?thesis by (simp add: q)
  next
    case 3
    then show ?thesis
      using download_item_keeps_urls [OF 3] by (simp add: q)
  qed
qed

text \<open>A locator longer than the buffer is stored cut to 255 characters but the search
  compares the stored text with the whole locator, so it is never found again.\<close>

lemma long_locator_twice:
  assumes "queue_ok s" "downloadQueueCount s + 1 < MAX_DOWNLOAD_QUEUE" "u \<notin> set (queued_urls s)"
    "length u > 255"
  shows "queued_urls (snd (addToDownloadQueue e (snd (addToDownloadQueue e s u d)) u d'))
           = queued_urls s @ [take 255 u, take 255 u]
     \<and> fst (addToDownloadQueue e (snd (addToDownloadQueue e s u d)) u d')"
proof -
  let ?s1 = "snd (addToDownloadQueue e s u d)"
  have lt: "downloadQueueCount s < MAX_DOWNLOAD_QUEUE" using assms(2) by simp
  have q1: "queued_urls ?s1 = queued_urls s @ [take 255 u]"
    using queued_urls_new [OF assms(1) lt assms(3), of e d] by (simp add: strncpy_buf_def)
  have ne: "u \<noteq> take 255 u"
  proof
    assume "u = take 255 u"
    then have "length u = length (take 255 u)" by simp
    then show False using assms(4) by simp
  qed
  have n1: "u \<notin> set (queued_urls ?s1)"
    using assms(3) ne by (simp add: q1 del: take_all_iff)
  have ok1: "queue_ok ?s1" using assms(1) by (rule queue_ok_add)
  have c1: "downloadQueueCount ?s1 < MAX_DOWNLOAD_QUEUE"
    using addToDownloadQueue_new [OF lt assms(3), of e d] assms(2) by simp
  show ?thesis
    using queued_urls_new [OF ok1 c1 n1, of e d'] addToDownloadQueue_new [OF c1 n1, of e d']
    by (simp add: q1 strncpy_buf_def)
qed

text \<open>
  C10 on the code: the locator of 264 characters is enqueued twice from boot. Both calls
  succeed, and the two entries of the queue hold the same stored locator, so the stored
  locators are not pairwise distinct.
\<close>

theorem long_locator_stored_twice:
  "length long_locator = 264
   \<and> queued_urls twice_long = [take 255 long_locator, take 255 long_locator]
   \<and> \<not> distinct (queued_urls twice_long)"
proof -
  have ok: "queue_ok boot_state"
    by (simp add: queue_ok_def boot_state_def MAX_DOWNLOAD_QUEUE_def)
  have c: "downloadQueueCount boot_state + 1 < MAX_DOWNLOAD_QUEUE"
    by (simp add: boot_state_def MAX_DOWNLOAD_QUEUE_def)
  have n: "long_locator \<notin> set (queued_urls boot_state)"
    by (simp add: queued_urls_def boot_state_def)
  have l: "length long_locator = 264"
    by (simp add: long_locator_def)
  then have l': "length long_locator > 255" by simp
  have e: "queued_urls boot_state = []"
    by (simp add: queued_urls_def boot_state_def)
  show ?thesis
    using long_locator_twice [OF ok c n l', of online_env None None] l
    by (simp add: twice_long_def e)
qed

subsection \<open>Resolving a key with a remote locator\<close>

lemma initializeSDCard_idem:
  "initializeSDCard e (snd (initializeSDCard e s)) = initializeSDCard e s"
  by (simp add: initializeSDCard_def)

lemma getLocalAudioPath_cong_init:
  assumes "sd_card s1 = sd_card s" "fst (initializeSDCard e s1) = fst (initializeSDCard e s)"
  shows "fst (getLocalAudioPath e s1 (Some u)) = fst (getLocalAudioPath e s (Some u))"
  by (simp add: getLocalAudioPath_fst urlToFilename_fst find_unused_cong [OF assms(1)]
       SD_exists_cong [OF assms(1)] assms(2) Let_def)

lemma urlToFilename_snd_init:
  "snd (urlToFilename e s x) = s \<or> snd (urlToFilename e s x) = snd (initializeSDCard e s)"
  by (auto simp add: urlToFilename_def Let_def split: option.splits prod.splits)

lemma getLocalAudioPath_snd_init:
  "snd (getLocalAudioPath e s x) = s \<or> snd (getLocalAudioPath e s x) = snd (initializeSDCard e s)"
  using urlToFilename_snd_init [of e s x]
  by (auto simp add: getLocalAudioPath_def split: option.splits prod.splits)

lemma getLocalAudioPath_after_init:
  "getLocalAudioPath e (snd (initializeSDCard e s)) (Some u)
     = (fst (getLocalAudioPath e s (Some u)), snd (initializeSDCard e s))
   \<or> \<not> fst (initializeSDCard e s)"
proof (cases "fst (initializeSDCard e s)")
  case True
  let ?s1 = "snd (initializeSDCard e s)"
  have i: "initializeSDCard e ?s1 = (True, ?s1)"
    using True by (simp add: initializeSDCard_def split: if_splits)
  have "snd (getLocalAudioPath e ?s1 (Some u)) = ?s1"
    using getLocalAudioPath_snd_init [of e ?s1 "Some u"] i by auto
  moreover have "fst (getLocalAudioPath e ?s1 (Some u)) = fst (getLocalAudioPath e s (Some u))"
    using True i by (intro getLocalAudioPath_cong_init) simp_all
  ultimately show ?thesis
    by (simp add: prod_eq_iff)
next
  case False
  then show ?thesis by simp
qed

lemma audioFileExists_result:
  "audioFileExists e s u =
     (fst (initializeSDCard e s) \<and> SD_exists s (the (fst (getLocalAudioPath e s (Some u)))),
      snd (initializeSDCard e s))"
proof (cases "fst (initializeSDCard e s)")
  case True
  then have i: "initializeSDCard e s = (True, snd (initializeSDCard e s))"
    by (simp add: prod_eq_iff)
  have g: "getLocalAudioPath e (snd (initializeSDCard e s)) (Some u)
     = (fst (getLocalAudioPath e s (Some u)), snd (initializeSDCard e s))"
    using getLocalAudioPath_after_init [of e s u] True by simp
  obtain p where p: "fst (getLocalAudioPath e s (Some u)) = Some p"
    using getLocalAudioPath_fst [of e s u] by blast
  have x: "SD_exists (snd (initializeSDCard e s)) p = SD_exists s p"
    by (rule SD_exists_cong) simp
  show ?thesis
    using True by (subst audioFileExists_def, subst i) (simp add: g p x)
next
  case False
  then have i: "initializeSDCard e s = (False, snd (initializeSDCard e s))"
    by (simp add: prod_eq_iff)
  show ?thesis
    using False by (subst audioFileExists_def, subst i) simp
qed

lemma is_web_url_nonempty: "is_web_url u \<Longrightarrow> u \<noteq> []"
  by (auto simp add: is_web_url_def)

lemma processAudioKey_web:
  assumes "find (\<lambda>f. audioKey f = k) (take (knownSequenceCount s) (knownFiles s)) = Some f"
    "type f = Some ''audio''" "path f = Some u" "is_web_url u"
  shows "processAudioKey e s (Some k) =
     (if fst (initializeSDCard e s) \<and> SD_exists s (the (fst (getLocalAudioPath e s (Some u))))
      then (fst (getLocalAudioPath e s (Some u)), snd (initializeSDCard e s))
      else (None, snd (addToDownloadQueue e (snd (initializeSDCard e s)) u (description f))))"
proof -
  have ne: "u \<noteq> []" using assms(4) by (rule is_web_url_nonempty)
  show ?thesis
  proof (cases "fst (initializeSDCard e s) \<and> SD_exists s (the (fst (getLocalAudioPath e s (Some u))))")
    case True
    then have g: "getLocalAudioPath e (snd (initializeSDCard e s)) (Some u)
       = (fst (getLocalAudioPath e s (Some u)), snd (initializeSDCard e s))"
      using getLocalAudioPath_after_init [of e s u] by simp
    show ?thesis
      using True assms ne by (simp add: processAudioKey_def audioFileExists_result g)
  next
    case False
    then show ?thesis
      using assms ne by (auto simp add: processAudioKey_def audioFileExists_result)
  qed
qed

text \<open>
  C2, as the code has it. Let the first record with the key be of type audio with an http
  or https locator. If the card is available and a file exists at the path the codec
  computes for the locator, resolving the key returns that path and leaves the queue alone.
  Otherwise it returns no path; if the queue is below capacity and the locator is not
  stored yet, exactly one task is appended, holding the locator cut to 255 characters, the
  computed path and the description cut to 63 characters, and if not the queue is
  unchanged. For a locator whose final path segment has a dot the computed path is the
  audio directory, a slash and the sanitised segment cut to 63 characters, whatever the
  state of the card, so the path returned once the file exists is the enqueued
  destination.
\<close>

theorem processAudioKey_remote:
  assumes "find (\<lambda>f. audioKey f = k) (take (knownSequenceCount s) (knownFiles s)) = Some f"
    "type f = Some ''audio''" "path f = Some u" "is_web_url u"
  shows
   "(fst (initializeSDCard e s) \<and> SD_exists s (the (fst (getLocalAudioPath e s (Some u)))) \<longrightarrow>
       fst (processAudioKey e s (Some k)) = fst (getLocalAudioPath e s (Some u))
       \<and> downloadQueue (snd (processAudioKey e s (Some k))) = downloadQueue s
       \<and> downloadQueueCount (snd (processAudioKey e s (Some k))) = downloadQueueCount s)
    \<and> (\<not> (fst (initializeSDCard e s) \<and> SD_exists s (the (fst (getLocalAudioPath e s (Some u))))) \<longrightarrow>
       fst (processAudioKey e s (Some k)) = None
       \<and> (if downloadQueueCount s < MAX_DOWNLOAD_QUEUE \<and> u \<notin> set (queued_urls s)
          then downloadQueueCount (snd (processAudioKey e s (Some k))) = downloadQueueCount s + 1
             \<and> downloadQueue (snd (processAudioKey e s (Some k))) =
                 (downloadQueue s)[downloadQueueCount s :=
                   \<lparr>url = take 255 u,
                    localPath = the (fst (getLocalAudioPath e s (Some u))),
                    itemDescription = take 63 (case description f of None \<Rightarrow> ''Unknown'' | Some x \<Rightarrow> x),
                    inProgress = False\<rparr>]
          else downloadQueueCount (snd (processAudioKey e s (Some k))) = downloadQueueCount s
             \<and> downloadQueue (snd (processAudioKey e s (Some k))) = downloadQueue s))
    \<and> (CHR ''.'' \<in> set (urlFilename u) \<longrightarrow>
         fst (getLocalAudioPath e s (Some u))
           = Some (AUDIO_FILES_DIR @ ''/'' @ take (MAX_FILENAME_LENGTH - 1) (sanitize (urlFilename u))))"
proof (intro conjI impI)
  assume h: "fst (initializeSDCard e s) \<and> SD_exists s (the (fst (getLocalAudioPath e s (Some u))))"
  then have p: "processAudioKey e s (Some k) = (fst (getLocalAudioPath e s (Some u)), snd (initializeSDCard e s))"
    using processAudioKey_web [OF assms, of e] by simp
  show "fst (processAudioKey e s (Some k)) = fst (getLocalAudioPath e s (Some u))"
    "downloadQueue (snd (processAudioKey e s (Some k))) = downloadQueue s"
    "downloadQueueCount (snd (processAudioKey e s (Some k))) = downloadQueueCount s"
    by (simp_all add: p)
next
  assume h: "\<not> (fst (initializeSDCard e s) \<and> SD_exists s (the (fst (getLocalAudioPath e s (Some u)))))"
  let ?s1 = "snd (initializeSDCard e s)"
  have p: "processAudioKey e s (Some k) = (None, snd (addToDownloadQueue e ?s1 u (description f)))"
    using processAudioKey_web [OF assms, of e] h by simp
  show "fst (processAudioKey e s (Some k)) = None" by (simp add: p)
  have g: "fst (getLocalAudioPath e ?s1 (Some u)) = fst (getLocalAudioPath e s (Some u))"
    by (intro getLocalAudioPath_cong_init) (simp_all add: initializeSDCard_idem)
  show "if downloadQueueCount s < MAX_DOWNLOAD_QUEUE \<and> u \<notin> set (queued_urls s)
          then downloadQueueCount (snd (processAudioKey e s (Some k))) = downloadQueueCount s + 1
             \<and> downloadQueue (snd (processAudioKey e s (Some k))) =
                 (downloadQueue s)[downloadQueueCount s :=
                   \<lparr>url = take 255 u,
                    localPath = the (fst (getLocalAudioPath e s (Some u))),
                    itemDescription = take 63 (case description f of None \<Rightarrow> ''Unknown'' | Some x \<Rightarrow> x),
                    inProgress = False\<rparr>]
          else downloadQueueCount (snd (processAudioKey e s (Some k))) = downloadQueueCount s
             \<and> downloadQueue (snd (processAudioKey e s (Some k))) = downloadQueue s"
  proof (cases "downloadQueueCount s < MAX_DOWNLOAD_QUEUE \<and> u \<notin> set (queued_urls s)")
    case True
    then have a: "downloadQueueCount ?s1 < MAX_DOWNLOAD_QUEUE" "u \<notin> set (queued_urls ?s1)"
      by simp_all
    show ?thesis
      using True addToDownloadQueue_new [OF a, of e "description f"]
      by (simp add: p g strncpy_buf_def)
  next
    case False
    then have "addToDownloadQueue e ?s1 u (description f) = (False, ?s1)
       \<or> addToDownloadQueue e ?s1 u (description f) = (True, ?s1)"
      by (auto simp add: addToDownloadQueue_def)
    then show ?thesis
      using False by (auto simp add: p)
  qed
next
  assume d: "CHR ''.'' \<in> set (urlFilename u)"
  show "fst (getLocalAudioPath e s (Some u))
           = Some (AUDIO_FILES_DIR @ ''/'' @ take (MAX_FILENAME_LENGTH - 1) (sanitize (urlFilename u)))"
    using urlToFilename_result [of e s u] d
    by (auto simp add: getLocalAudioPath_fst snprintf_def AUDIO_FILES_DIR_def MAX_FILENAME_LENGTH_def)
qed

text \<open>The example of the specification: the first resolve enqueues the task and returns
  no path; with the file on the card the resolve returns its path.\<close>

theorem processAudioKey_remote_witness:
  "find (\<lambda>f. audioKey f = ''123'') (take (knownSequenceCount one_known) (knownFiles one_known))
     = Some \<lparr>audioKey = ''123'', description = Some ''Welcome'', type = Some ''audio'',
              path = Some ''https://x/a.mp3''\<rparr>
   \<and> is_web_url ''https://x/a.mp3''
   \<and> fst (processAudioKey online_env one_known (Some ''123'')) = None
   \<and> downloadQueueCount (snd (processAudioKey online_env one_known (Some ''123''))) = 1
   \<and> downloadQueue (snd (processAudioKey online_env one_known (Some ''123''))) ! 0
       = \<lparr>url = ''https://x/a.mp3'', localPath = ''/audio/a.mp3'',
          itemDescription = ''Welcome'', inProgress = False\<rparr>
   \<and> fst (processAudioKey online_env cached_known (Some ''123'')) = Some ''/audio/a.mp3''"
proof -
  let ?f = "\<lparr>audioKey = ''123'', description = Some ''Welcome'', type = Some ''audio'',
              path = Some ''https://x/a.mp3''\<rparr>"
  let ?u = "''https://x/a.mp3''"
  have f1: "find (\<lambda>f. audioKey f = ''123'') (take (knownSequenceCount one_known) (knownFiles one_known))
     = Some ?f"
    by code_simp
  have f2: "find (\<lambda>f. audioKey f = ''123'') (take (knownSequenceCount cached_known) (knownFiles cached_known))
     = Some ?f"
    by code_simp
  have t: "type ?f = Some ''audio''" and p: "path ?f = Some ?u" by simp_all
  have w: "is_web_url ?u" by (simp add: is_web_url_def)
  have dot: "CHR ''.'' \<in> set (urlFilename ?u)" by (simp add: urlFilename_def)
  have san: "take (MAX_FILENAME_LENGTH - 1) (sanitize (urlFilename ?u)) = ''a.mp3''"
    by (simp add: urlFilename_def sanitize_def isalnum_def MAX_FILENAME_LENGTH_def)
  note T1 = processAudioKey_remote [OF f1 t p w, of online_env]
  note T2 = processAudioKey_remote [OF f2 t p w, of online_env]
  have g1: "fst (getLocalAudioPath online_env one_known (Some ?u)) = Some ''/audio/a.mp3''"
    using T1 dot san by (simp add: AUDIO_FILES_DIR_def)
  have g2: "fst (getLocalAudioPath online_env cached_known (Some ?u)) = Some ''/audio/a.mp3''"
    using T2 dot san by (simp add: AUDIO_FILES_DIR_def)
  have x1: "\<not> SD_exists one_known ''/audio/a.mp3''"
    by (simp add: SD_exists_def one_known_def boot_state_def)
  have x2: "SD_exists cached_known ''/audio/a.mp3''" "fst (initializeSDCard online_env cached_known)"
    by (simp_all add: SD_exists_def cached_known_def initializeSDCard_def online_env_def)
  have q: "downloadQueueCount one_known = 0" "queued_urls one_known = []"
     "length (downloadQueue one_known) = 20" "description ?f = Some ''Welcome''"
    by (simp_all add: one_known_def boot_state_def queued_urls_def)
  have r1: "fst (processAudioKey online_env one_known (Some ''123'')) = None
     \<and> downloadQueueCount (snd (processAudioKey online_env one_known (Some ''123''))) = 1
     \<and> downloadQueue (snd (processAudioKey online_env one_known (Some ''123''))) ! 0
       = \<lparr>url = ''https://x/a.mp3'', localPath = ''/audio/a.mp3'',
          itemDescription = ''Welcome'', inProgress = False\<rparr>"
    using T1 x1 by (simp add: g1 q MAX_DOWNLOAD_QUEUE_def)
  have r2: "fst (processAudioKey online_env cached_known (Some ''123'')) = Some ''/audio/a.mp3''"
    using T2 x2 by (simp add: g2)
  show ?thesis
    using f1 w r1 r2 by simp
qed

text \<open>
  C2 as the specification states it fails: with a full queue the resolve returns no path
  and no task for the locator is enqueued.
\<close>

theorem processAudioKey_full_queue_drops:
  "find (\<lambda>f. audioKey f = ''123'') (take (knownSequenceCount full_known) (knownFiles full_known))
     = Some \<lparr>audioKey = ''123'', description = Some ''Welcome'', type = Some ''audio'',
              path = Some ''https://x/a.mp3''\<rparr>
   \<and> fst (audioFileExists online_env full_known ''https://x/a.mp3'') = False
   \<and> fst (processAudioKey online_env full_known (Some ''123'')) = None
   \<and> downloadQueueCount (snd (processAudioKey online_env full_known (Some ''123'')))
       = downloadQueueCount full_known
   \<and> ''https://x/a.mp3'' \<notin> set (queued_urls (snd (processAudioKey online_env full_known (Some ''123''))))"
proof -
  let ?f = "\<lparr>audioKey = ''123'', description = Some ''Welcome'', type = Some ''audio'',
              path = Some ''https://x/a.mp3''\<rparr>"
  let ?u = "''https://x/a.mp3''"
  let ?s1 = "snd (initializeSDCard online_env full_known)"
  have f: "find (\<lambda>f. audioKey f = ''123'') (take (knownSequenceCount full_known) (knownFiles full_known))
     = Some ?f"
    by code_simp
  have t: "type ?f = Some ''audio''" and p: "path ?f = Some ?u" by simp_all
  have w: "is_web_url ?u" by (simp add: is_web_url_def)
  have nx: "\<not> SD_exists full_known x" for x
    by (simp add: SD_exists_def full_known_def full_queue_def boot_state_def)
  have a: "fst (audioFileExists online_env full_known ?u) = False"
    by (simp add: audioFileExists_result nx)
  have k: "processAudioKey online_env full_known (Some ''123'')
      = (None, snd (addToDownloadQueue online_env ?s1 ?u (description ?f)))"
    using processAudioKey_web [OF f t p w, of online_env] nx by simp
  have c: "downloadQueueCount ?s1 \<ge> MAX_DOWNLOAD_QUEUE"
    by (simp add: full_known_def full_queue_def MAX_DOWNLOAD_QUEUE_def)
  have d: "addToDownloadQueue online_env ?s1 ?u x = (False, ?s1)" for x
    using c by (simp add: addToDownloadQueue_def)
  have n: "?u \<notin> set (queued_urls full_known)"
    by code_simp
  show ?thesis
    using f a n by (simp add: k d)
qed

text \<open>A locator whose final segment has no dot gets a name made from its hash, and the
  codec then looks for a name that is not yet on the card. Once the file
  \<^verbatim>\<open>audio_<hash>.mp3\<close> has been downloaded, the lookup therefore tests the next free name
  and reports the file as missing.\<close>

lemma hex08_length: "length (hex08 h) = 8"
  by (simp add: hex08_def)

lemma hash_named_cache_miss:
  assumes "CHR ''.'' \<notin> set (urlFilename u)" "fst (initializeSDCard e s)"
    "SD_exists s (AUDIO_FILES_DIR @ ''/audio_'' @ hex08 (hash_loop u 5381) @ ''.mp3'')"
    "\<not> SD_exists s (AUDIO_FILES_DIR @ ''/audio_'' @ hex08 (hash_loop u 5381) @ ''_1.mp3'')"
  shows "fst (audioFileExists e s u) = False"
proof -
  let ?h = "hash_loop u 5381"
  have b: "snprintf 128 (AUDIO_FILES_DIR @ ''/'' @ snprintf MAX_FILENAME_LENGTH (''audio_'' @ hex08 ?h @ ''.mp3''))
     = AUDIO_FILES_DIR @ ''/audio_'' @ hex08 ?h @ ''.mp3''"
    by (simp add: snprintf_def MAX_FILENAME_LENGTH_def AUDIO_FILES_DIR_def hex08_length)
  have d: "decimal 1 = ''1''" "decimal (Suc 0) = ''1''"
    by (simp_all add: decimal.simps hex_digit_def)
  have c: "snprintf 128 (AUDIO_FILES_DIR @ ''/'' @ snprintf MAX_FILENAME_LENGTH (''audio_'' @ hex08 ?h @ ''_'' @ decimal 1 @ ''.mp3''))
     = AUDIO_FILES_DIR @ ''/audio_'' @ hex08 ?h @ ''_1.mp3''"
    by (simp add: d snprintf_def MAX_FILENAME_LENGTH_def AUDIO_FILES_DIR_def hex08_length)
  have fu: "find_unused s ?h 1 = Some (''audio_'' @ hex08 ?h @ ''_1.mp3'')"
    using assms(4) c
    by (subst find_unused.simps) (simp add: Let_def d snprintf_def MAX_FILENAME_LENGTH_def hex08_length)
  have n: "fst (urlToFilename e s (Some u)) = Some (''audio_'' @ hex08 ?h @ ''_1.mp3'')"
    by (simp only: urlToFilename_fst Let_def assms(1) assms(2) assms(3) b fu simp_thms if_True
          if_False option.case)
  have g: "fst (getLocalAudioPath e s (Some u)) = Some (AUDIO_FILES_DIR @ ''/audio_'' @ hex08 ?h @ ''_1.mp3'')"
    by (simp add: getLocalAudioPath_fst n snprintf_def AUDIO_FILES_DIR_def hex08_length)
  show ?thesis
    using assms(4) by (simp add: audioFileExists_result g)
qed

text \<open>The example: on a fresh card the destination of \<^verbatim>\<open>https://x/stream\<close> is
  \<^verbatim>\<open>/audio/audio_8d0dd443.mp3\<close>; with that file on the card the lookup says that nothing
  is cached.\<close>

lemma hash_named_example:
  "fst (getLocalAudioPath online_env boot_state (Some ''https://x/stream''))
     = Some ''/audio/audio_8d0dd443.mp3''
   \<and> fst (audioFileExists online_env
        (boot_state\<lparr>sd_card := [''/audio/audio_8d0dd443.mp3'' \<mapsto> SDFile ''abc'']\<rparr>)
        ''https://x/stream'') = False"
proof -
  let ?u = "''https://x/stream''"
  let ?s = "boot_state\<lparr>sd_card := [''/audio/audio_8d0dd443.mp3'' \<mapsto> SDFile ''abc'']\<rparr>"
  have h: "hex08 (hash_loop ?u 5381) = ''8d0dd443''"
    by (simp add: hex08_def hex_digit_def)
  have nd: "CHR ''.'' \<notin> set (urlFilename ?u)"
    by (simp add: urlFilename_def)
  have nx: "\<not> SD_exists boot_state p" for p
    by (simp add: SD_exists_def boot_state_def)
  have "fst (urlToFilename online_env boot_state (Some ?u)) = Some ''audio_8d0dd443.mp3''"
    using nd by (simp add: urlToFilename_fst Let_def nx h snprintf_def MAX_FILENAME_LENGTH_def
        del: hash_loop.simps)
  then have a: "fst (getLocalAudioPath online_env boot_state (Some ?u)) = Some ''/audio/audio_8d0dd443.mp3''"
    by (simp add: getLocalAudioPath_fst snprintf_def AUDIO_FILES_DIR_def)
  have i: "fst (initializeSDCard online_env ?s)"
    by (simp add: initializeSDCard_def online_env_def)
  have b: "fst (audioFileExists online_env ?s ?u) = False"
    using nd i
    by (intro hash_named_cache_miss)
       (simp_all add: h SD_exists_def AUDIO_FILES_DIR_def del: hash_loop.simps)
  show ?thesis using a b by simp
qed

subsection \<open>Refresh\<close>

lemma save_fields [simp]:
  "knownSequenceCount (snd (saveKnownSequencesToSDCard e s)) = knownSequenceCount s"
  "knownFiles (snd (saveKnownSequencesToSDCard e s)) = knownFiles s"
  "http_requests (snd (saveKnownSequencesToSDCard e s)) = http_requests s"
  by (auto simp add: saveKnownSequencesToSDCard_def SD_write_def Let_def initializeSDCard_def
      split: prod.splits bool.splits)

lemma downloadAudio_fresh:
  assumes "wifi_connected e" "\<not> fst (isCacheStale e s)"
  shows "downloadAudio e s = (True, snd (isCacheStale e s))"
  using assms by (cases "isCacheStale e s") (simp add: downloadAudio_def)

lemma downloadAudio_stale_requests:
  assumes "wifi_connected e" "fst (isCacheStale e s)"
  shows "http_requests (snd (downloadAudio e s)) = http_requests s @ [KNOWN_FILES_URL]"
proof -
  obtain s1 where i: "isCacheStale e s = (True, s1)"
    using assms(2) by (cases "isCacheStale e s") auto
  have h: "http_requests s1 = http_requests s"
    using isCacheStale_fields(3) [of e s] i by simp
  show ?thesis
    using assms(1) by (simp add: downloadAudio_def i h Let_def split: option.splits prod.splits)
qed

lemma load_sequences_mono: "n \<le> snd (load_sequences kvs fs n)"
proof (induction kvs arbitrary: fs n)
  case Nil
  then show ?case by simp
next
  case (Cons kv kvs)
  obtain k d where kv: "kv = (k, d)" by (cases kv)
  show ?case
    using Cons [of "Suc n"] by (auto simp add: kv Suc_le_eq intro: less_imp_le)
qed

lemma load_sequences_pos: "kvs \<noteq> [] \<Longrightarrow> 0 < snd (load_sequences kvs fs 0)"
proof (cases kvs)
  case Nil
  then show "kvs \<noteq> [] \<Longrightarrow> ?thesis" by simp
next
  case (Cons kv rest)
  obtain k d where kv: "kv = (k, d)" by (cases kv)
  show ?thesis
    using load_sequences_mono [of 1 rest] by (simp add: Cons kv MAX_KNOWN_SEQUENCES_def Suc_le_eq)
qed

lemma initializeSDCard_working:
  "sd_begin_ok e \<Longrightarrow> sd_card_present e \<Longrightarrow>
     initializeSDCard e s = (True, s\<lparr>sdCardInitialized := True\<rparr>)"
  by (cases s) (simp add: initializeSDCard_def)

lemma save_ok:
  assumes "sd_begin_ok e" "sd_card_present e" "sd_open_write_ok e AUDIO_JSON_FILE"
    "sd_open_write_ok e CACHE_TIMESTAMP_FILE"
    "serializeJson e (take (knownSequenceCount s) (knownFiles s)) \<noteq> []"
  shows "sdCardInitialized (snd (saveKnownSequencesToSDCard e s))
    \<and> sd_card (snd (saveKnownSequencesToSDCard e s)) CACHE_TIMESTAMP_FILE
        = Some (SDFile (decimal (unat (millis e))))"
  using assms
  by (simp add: saveKnownSequencesToSDCard_def initializeSDCard_working SD_write_def Let_def)

lemma isCacheStale_snd_requests: "http_requests (snd (isCacheStale e s)) = http_requests s"
  by simp

lemma two_refreshes:
  assumes first: "wifi_connected e1" "fst (isCacheStale e1 s)" "sd_begin_ok e1" "sd_card_present e1"
      "r_code (http_GET e1 KNOWN_FILES_URL) = 200"
      "length (r_payload (http_GET e1 KNOWN_FILES_URL)) \<le> MAX_HTTP_RESPONSE_SIZE"
      "deserializeJson e1 (r_payload (http_GET e1 KNOWN_FILES_URL)) = Some root" "root \<noteq> []"
      "serializeJson e1 (take (snd (load_sequences root (knownFiles s) 0))
                               (fst (load_sequences root (knownFiles s) 0))) \<noteq> []"
      "sd_open_write_ok e1 AUDIO_JSON_FILE" "sd_open_write_ok e1 CACHE_TIMESTAMP_FILE"
    and second: "wifi_connected e2" "sd_open_read_ok e2 CACHE_TIMESTAMP_FILE"
      "toInt e2 (decimal (unat (millis e1))) = millis e1"
      "cacheAge (millis e2) (millis e1) \<le> maxAge"
  shows "fst (downloadAudio e1 s)
     \<and> http_requests (snd (downloadAudio e1 s)) = http_requests s @ [KNOWN_FILES_URL]
     \<and> fst (downloadAudio e2 (snd (downloadAudio e1 s)))
     \<and> http_requests (snd (downloadAudio e2 (snd (downloadAudio e1 s))))
         = http_requests (snd (downloadAudio e1 s))"
proof -
  obtain s0 where i: "isCacheStale e1 s = (True, s0)"
    using first(2) by (cases "isCacheStale e1 s") auto
  have k0: "knownFiles s0 = knownFiles s"
    using isCacheStale_fields(1) [of e1 s] i by simp
  obtain files n where l: "load_sequences root (knownFiles s) 0 = (files, n)"
    by (cases "load_sequences root (knownFiles s) 0")
  have n: "0 < n" using load_sequences_pos [OF first(8), of "knownFiles s"] l by simp
  define s3 where "s3 = s0\<lparr>http_requests := http_requests s0 @ [KNOWN_FILES_URL],
     knownFiles := files, knownSequenceCount := n\<rparr>"
  have d1: "downloadAudio e1 s = (True, snd (saveKnownSequencesToSDCard e1 s3))"
    using first by (simp add: downloadAudio_def i Let_def k0 l s3_def)
  let ?s1 = "snd (saveKnownSequencesToSDCard e1 s3)"
  have ser: "serializeJson e1 (take (knownSequenceCount s3) (knownFiles s3)) \<noteq> []"
    using first(9) by (simp add: l s3_def)
  have sv: "sdCardInitialized ?s1"
     "sd_card ?s1 CACHE_TIMESTAMP_FILE = Some (SDFile (decimal (unat (millis e1))))"
    using save_ok [OF first(3,4,10,11) ser] by simp_all
  have c: "knownSequenceCount s3 = n" by (simp add: s3_def)
  have st: "isCacheStale e2 ?s1 = (False, ?s1)"
    using n second sv
    by (simp add: isCacheStale_def c initializeSDCard_def SD_open_read_def Let_def not_less)
  have d2: "downloadAudio e2 ?s1 = (True, ?s1)"
    using second(1) by (simp add: downloadAudio_def st)
  show ?thesis
    using downloadAudio_stale_requests [OF first(1,2)] by (simp add: d1 d2)
qed


text \<open>
  C7, as the code has it. With the network available and a cache that is not stale,
  \<^verbatim>\<open>downloadAudio\<close> succeeds and makes no request. Two refreshes in succession: when the
  first one, with a working card, fetches at least one record and writes the registry
  and the mark, and the second one comes with the network available, reads the mark back
  as it was written and finds its age within the validity window, then the first makes
  one request and the second makes none, and both succeed.
\<close>

theorem downloadAudio_skips_when_fresh:
  "(wifi_connected e \<and> \<not> fst (isCacheStale e s) \<longrightarrow>
      downloadAudio e s = (True, snd (isCacheStale e s))
      \<and> http_requests (snd (downloadAudio e s)) = http_requests s)
   \<and> (wifi_connected e1 \<and> fst (isCacheStale e1 s) \<and> sd_begin_ok e1 \<and> sd_card_present e1
       \<and> r_code (http_GET e1 KNOWN_FILES_URL) = 200
       \<and> length (r_payload (http_GET e1 KNOWN_FILES_URL)) \<le> MAX_HTTP_RESPONSE_SIZE
       \<and> deserializeJson e1 (r_payload (http_GET e1 KNOWN_FILES_URL)) = Some root \<and> root \<noteq> []
       \<and> serializeJson e1 (take (snd (load_sequences root (knownFiles s) 0))
                               (fst (load_sequences root (knownFiles s) 0))) \<noteq> []
       \<and> sd_open_write_ok e1 AUDIO_JSON_FILE \<and> sd_open_write_ok e1 CACHE_TIMESTAMP_FILE
       \<and> wifi_connected e2 \<and> sd_open_read_ok e2 CACHE_TIMESTAMP_FILE
       \<and> toInt e2 (decimal (unat (millis e1))) = millis e1
       \<and> cacheAge (millis e2) (millis e1) \<le> maxAge \<longrightarrow>
      fst (downloadAudio e1 s)
      \<and> http_requests (snd (downloadAudio e1 s)) = http_requests s @ [KNOWN_FILES_URL]
      \<and> fst (downloadAudio e2 (snd (downloadAudio e1 s)))
      \<and> http_requests (snd (downloadAudio e2 (snd (downloadAudio e1 s))))
          = http_requests (snd (downloadAudio e1 s)))"
proof (intro conjI impI)
  assume h: "wifi_connected e \<and> \<not> fst (isCacheStale e s)"
  then show "downloadAudio e s = (True, snd (isCacheStale e s))"
    by (simp add: downloadAudio_fresh)
  then show "http_requests (snd (downloadAudio e s)) = http_requests s"
    by simp
next
  assume h: "wifi_connected e1 \<and> fst (isCacheStale e1 s) \<and> sd_begin_ok e1 \<and> sd_card_present e1
       \<and> r_code (http_GET e1 KNOWN_FILES_URL) = 200
       \<and> length (r_payload (http_GET e1 KNOWN_FILES_URL)) \<le> MAX_HTTP_RESPONSE_SIZE
       \<and> deserializeJson e1 (r_payload (http_GET e1 KNOWN_FILES_URL)) = Some root \<and> root \<noteq> []
       \<and> serializeJson e1 (take (snd (load_sequences root (knownFiles s) 0))
                               (fst (load_sequences root (knownFiles s) 0))) \<noteq> []
       \<and> sd_open_write_ok e1 AUDIO_JSON_FILE \<and> sd_open_write_ok e1 CACHE_TIMESTAMP_FILE
       \<and> wifi_connected e2 \<and> sd_open_read_ok e2 CACHE_TIMESTAMP_FILE
       \<and> toInt e2 (decimal (unat (millis e1))) = millis e1
       \<and> cacheAge (millis e2) (millis e1) \<le> maxAge"
  then have t: "fst (downloadAudio e1 s)
     \<and> http_requests (snd (downloadAudio e1 s)) = http_requests s @ [KNOWN_FILES_URL]
     \<and> fst (downloadAudio e2 (snd (downloadAudio e1 s)))
     \<and> http_requests (snd (downloadAudio e2 (snd (downloadAudio e1 s))))
         = http_requests (snd (downloadAudio e1 s))"
    by (intro two_refreshes) blast+
  then show "fst (downloadAudio e1 s)"
    "http_requests (snd (downloadAudio e1 s)) = http_requests s @ [KNOWN_FILES_URL]"
    "fst (downloadAudio e2 (snd (downloadAudio e1 s)))"
    "http_requests (snd (downloadAudio e2 (snd (downloadAudio e1 s))))
          = http_requests (snd (downloadAudio e1 s))"
    by simp_all
qed

text \<open>From boot, a registry of one record is fetched at clock 5000; the refresh at
  clock 6000 makes no request.\<close>

theorem downloadAudio_skips_when_fresh_witness:
  "wifi_connected registry_env \<and> fst (isCacheStale registry_env boot_state)
   \<and> cacheAge (millis later_env) (millis registry_env) = 1000
   \<and> fst (downloadAudio registry_env boot_state)
   \<and> http_requests (snd (downloadAudio registry_env boot_state)) = [KNOWN_FILES_URL]
   \<and> fst (downloadAudio later_env (snd (downloadAudio registry_env boot_state)))
   \<and> http_requests (snd (downloadAudio later_env (snd (downloadAudio registry_env boot_state))))
       = [KNOWN_FILES_URL]"
proof -
  let ?root = "[(''123'', \<lparr>j_description = None, j_type = Some ''audio'',
                                              j_path = Some ''https://x/a.mp3''\<rparr>)]"
  have a: "wifi_connected registry_env" "sd_begin_ok registry_env" "sd_card_present registry_env"
    "r_code (http_GET registry_env KNOWN_FILES_URL) = 200"
    "length (r_payload (http_GET registry_env KNOWN_FILES_URL)) \<le> MAX_HTTP_RESPONSE_SIZE"
    "deserializeJson registry_env (r_payload (http_GET registry_env KNOWN_FILES_URL)) = Some ?root"
    "serializeJson registry_env fs \<noteq> []"
    "sd_open_write_ok registry_env AUDIO_JSON_FILE" "sd_open_write_ok registry_env CACHE_TIMESTAMP_FILE"
    for fs
    by (simp_all add: registry_env_def online_env_def one_record_def MAX_HTTP_RESPONSE_SIZE_def)
  have b: "wifi_connected later_env" "sd_open_read_ok later_env CACHE_TIMESTAMP_FILE"
    "millis registry_env = 5000" "millis later_env = 6000"
    by (simp_all add: later_env_def registry_env_def online_env_def)
  have d5: "decimal 5000 = ''5000''"
    by (simp add: decimal.simps hex_digit_def)
  have ti: "toInt later_env (decimal (unat (millis registry_env))) = millis registry_env"
    by (simp add: b d5) (simp add: later_env_def registry_env_def)
  have age: "cacheAge (millis later_env) (millis registry_env) = 1000"
    by (simp add: b cacheAge_def)
  have st: "fst (isCacheStale registry_env boot_state)"
    by (simp add: isCacheStale_def boot_state_def)
  have h0: "http_requests boot_state = []" by (simp add: boot_state_def)
  show ?thesis
    using downloadAudio_skips_when_fresh [of registry_env boot_state registry_env ?root later_env] a b ti age st h0
    by (simp add: maxAge_value d5)
qed

text \<open>
  C7 as the specification states it fails: when the server's registry is the empty
  object the first refresh succeeds with no record, the cache stays stale, and the
  second refresh, at the same clock reading, makes a second request.
\<close>

theorem downloadAudio_empty_registry_refetches:
  "wifi_connected empty_registry_env
   \<and> fst (downloadAudio empty_registry_env boot_state)
   \<and> http_requests (snd (downloadAudio empty_registry_env boot_state)) = [KNOWN_FILES_URL]
   \<and> http_requests (snd (downloadAudio empty_registry_env
        (snd (downloadAudio empty_registry_env boot_state)))) = [KNOWN_FILES_URL, KNOWN_FILES_URL]"
proof -
  let ?e = empty_registry_env
  let ?s1 = "snd (downloadAudio ?e boot_state)"
  have w: "wifi_connected ?e"
    by (simp add: empty_registry_env_def online_env_def)
  have i: "isCacheStale ?e boot_state = (True, boot_state)"
    by (simp add: isCacheStale_def boot_state_def)
  have g: "r_code (http_GET ?e KNOWN_FILES_URL) = 200"
     "r_payload (http_GET ?e KNOWN_FILES_URL) = ''{}''" "deserializeJson ?e t = Some []" for t
    by (simp_all add: empty_registry_env_def online_env_def empty_object_def)
  have d: "downloadAudio ?e boot_state = (True, snd (saveKnownSequencesToSDCard ?e
      (boot_state\<lparr>http_requests := http_requests boot_state @ [KNOWN_FILES_URL],
         knownFiles := knownFiles boot_state, knownSequenceCount := 0\<rparr>)))"
    using w by (simp add: downloadAudio_def i g Let_def MAX_HTTP_RESPONSE_SIZE_def)
  have c: "knownSequenceCount ?s1 = 0" by (simp add: d)
  have "http_requests ?s1 = http_requests boot_state @ [KNOWN_FILES_URL]"
    by (simp add: d)
  then have r1: "http_requests ?s1 = [KNOWN_FILES_URL]"
    by (simp add: boot_state_def)
  have st: "fst (isCacheStale ?e ?s1)"
    by (simp add: isCacheStale_def c)
  show ?thesis
    using downloadAudio_stale_requests [OF w st] w r1 by (simp add: d)
qed

subsection \<open>The mark across a rollover of the clock\<close>

lemma String_toInt_saturates: "String_toInt ''4294967286'' = 2147483647"
  by (simp add: String_toInt_def atol_def isspace_def isdigit_def)

lemma String_toInt_small: "String_toInt ''5000'' = 5000"
  by (simp add: String_toInt_def atol_def isspace_def isdigit_def)

text \<open>
  C6 on the code. The code saves the registry at clock \<open>2^32 - 10\<close> and so writes the mark
  \<^verbatim>\<open>4294967286\<close>. At clock 5, after the rollover, the age should be 15. But
  \<^verbatim>\<open>isCacheStale\<close> reads the mark with \<^verbatim>\<open>toInt\<close>, which gives \<open>2^31 - 1\<close>, computes
  the age 2147483654 and reports the cache as stale.
\<close>

theorem isCacheStale_mark_misread_after_rollover:
  "millis before_rollover_env = 2 ^ 32 - 10
   \<and> millis after_rollover_env = 5
   \<and> cacheAge (millis after_rollover_env) (millis before_rollover_env) = 15
   \<and> SD_open_read after_rollover_env marked_before_rollover CACHE_TIMESTAMP_FILE
        = Some ''4294967286''
   \<and> toInt after_rollover_env ''4294967286'' = 2147483647
   \<and> cacheAge (millis after_rollover_env) (toInt after_rollover_env ''4294967286'') = 2147483654
   \<and> isCacheStale after_rollover_env marked_before_rollover = (True, marked_before_rollover)"
proof -
  let ?e1 = before_rollover_env and ?e2 = after_rollover_env and ?s = marked_before_rollover
  have m: "millis ?e1 = 4294967286" "millis ?e2 = 5" "toInt ?e2 = String_toInt"
    "sd_open_read_ok ?e2 CACHE_TIMESTAMP_FILE"
    by (simp_all add: before_rollover_env_def after_rollover_env_def online_env_def)
  have w: "sd_begin_ok ?e1" "sd_card_present ?e1" "sd_open_write_ok ?e1 AUDIO_JSON_FILE"
    "sd_open_write_ok ?e1 CACHE_TIMESTAMP_FILE" "serializeJson ?e1 fs \<noteq> []" for fs
    by (simp_all add: before_rollover_env_def online_env_def)
  have d: "decimal 4294967286 = ''4294967286''"
    by (simp add: decimal.simps hex_digit_def)
  have sv: "sdCardInitialized ?s"
    "sd_card ?s CACHE_TIMESTAMP_FILE = Some (SDFile ''4294967286'')"
    using save_ok [OF w(1-4), of one_known] w(5)
    by (simp_all add: marked_before_rollover_def m d)
  have c: "knownSequenceCount ?s = 1"
    by (simp add: marked_before_rollover_def one_known_def)
  have r: "SD_open_read ?e2 ?s CACHE_TIMESTAMP_FILE = Some ''4294967286''"
    by (simp add: SD_open_read_def sv m)
  have t: "toInt ?e2 ''4294967286'' = 2147483647"
    by (simp add: m String_toInt_saturates)
  have a: "cacheAge 5 (2147483647 :: ulong) = 2147483654"
    by (simp add: cacheAge_def)
  have a15: "cacheAge 5 (4294967286 :: ulong) = 15"
    by (simp add: cacheAge_def)
  have st: "isCacheStale ?e2 ?s = (True, ?s)"
    using sv(1)
    by (simp add: isCacheStale_def c initializeSDCard_def r m String_toInt_saturates a maxAge_value)
  show ?thesis
    using r t st by (simp add: m a a15)
qed

end
